theory Spec2Isabelle
  imports Complex_Main "HOL-Library.AList"
begin

section \<open>The record tree of RecordFactory.ts\<close>

text \<open>
  A shallow embedding of \<^verbatim>\<open>src/r/R/RecordFactory.ts\<close>. A \<^verbatim>\<open>RecordNode\<close> is a JSON object
  \<^verbatim>\<open>{name?, type, order?, props, records?}\<close>; \<^verbatim>\<open>records\<close> maps a record type to a record map, and
  a record map maps an id to a child node.

  Conventions of the embedding:
  \<^item> A JavaScript object is an association list in the object's own key order (the order of
    \<^verbatim>\<open>Object.keys\<close>, \<^verbatim>\<open>Object.values\<close>, \<^verbatim>\<open>Object.entries\<close>); lookup is \<open>map_of\<close>.
  \<^item> Ids are natural numbers; \<^verbatim>\<open>order\<close> values and numeric property values are rationals. The
    methods that change the tree compute orders with exact arithmetic; the order allocator
    is also given with the arithmetic of doubles, every operation rounded.
  \<^item> \<^verbatim>\<open>undefined\<close> is \<open>None\<close>.
  \<^item> A factory method that mutates \<^verbatim>\<open>this._json\<close> in place returns the node after the call.
    A node is a value: the model stands for trees in which no object is stored at two
    places, as \<^verbatim>\<open>JSON.parse\<close> builds them.
  \<^item> A thrown exception is \<open>Inl\<close> of an \<open>error\<close>: \<open>UnknownRecordType\<close> for the error the
    constructor of \<^verbatim>\<open>RecordFactory\<close> throws on a node whose type is not a known record type,
    \<open>TypeError\<close> for a property read on \<^verbatim>\<open>undefined\<close>. The methods are modelled on the node of
    a factory that exists, so the type of that node is a known record type.
  \<^item> \<open>PrototypeWrite\<close> is no exception. It marks a call that goes on to write into a member of
    \<^verbatim>\<open>Object.prototype\<close>, an object outside the tree that all objects share; the model does not
    follow such a call.
\<close>

datatype pval = PNum rat | PStr string | PBool bool | PNull | PArr "pval list"

datatype node = Node
  (name: "string option")
  (type: string)
  (order: "rat option")
  (props: "(string \<times> pval) list")
  (records: "(string \<times> (nat \<times> node) list) list option")

type_synonym recordMap = "(nat \<times> node) list"

datatype error = UnknownRecordType | TypeError | PrototypeWrite

definition with_name :: "node \<Rightarrow> string option \<Rightarrow> node" where
  "with_name n v = Node v (type n) (order n) (props n) (records n)"

definition with_order :: "node \<Rightarrow> rat option \<Rightarrow> node" where
  "with_order n v = Node (name n) (type n) v (props n) (records n)"

definition with_props :: "node \<Rightarrow> (string \<times> pval) list \<Rightarrow> node" where
  "with_props n v = Node (name n) (type n) (order n) v (records n)"

definition with_records :: "node \<Rightarrow> (string \<times> recordMap) list option \<Rightarrow> node" where
  "with_records n v = Node (name n) (type n) (order n) (props n) v"

subsection \<open>The collaborators that are imported from other modules\<close>

text \<open>
  \<^verbatim>\<open>isRecordType\<close>, \<^verbatim>\<open>isTypeChildOf\<close> and \<^verbatim>\<open>recordTypeDefinitions[type].defaultName\<close> come from
  \<^verbatim>\<open>./RecordTypes\<close>, \<^verbatim>\<open>getSafeAndUniqueRecordName\<close> and \<^verbatim>\<open>generateIdV2\<close> from the package
  \<^verbatim>\<open>@gmetrixr/gdash\<close>. They are parameters of the model. \<open>generateIdV2 reg k\<close> is the id that
  the \<open>k\<close>-th call of the generator returns; the number of calls made so far is threaded
  through the functions that generate ids.
\<close>

record registry =
  isRecordType :: "string \<Rightarrow> bool"
  isTypeChildOf :: "string \<Rightarrow> string \<Rightarrow> bool"
  defaultName :: "string \<Rightarrow> string option"
  getSafeAndUniqueRecordName :: "string \<Rightarrow> string list \<Rightarrow> string"
  generateIdV2 :: "nat \<Rightarrow> nat"

subsection \<open>Property order of a JavaScript object with integer keys\<close>

text \<open>
  \<^verbatim>\<open>obj[k] = v\<close> on an object whose keys are ids: an existing key keeps its place; a new key
  that is an array index (below \<open>2^32 - 1\<close>) goes into ascending position among the array
  indices, which come first; any other new key goes last.
\<close>

definition is_array_index :: "nat \<Rightarrow> bool" where
  "is_array_index k = (k < 4294967295)"

definition js_put :: "nat \<Rightarrow> 'a \<Rightarrow> (nat \<times> 'a) list \<Rightarrow> (nat \<times> 'a) list" where
  "js_put k v m =
     (if k \<in> fst ` set m then AList.update k v m
      else if is_array_index k then
        takeWhile (\<lambda>e. is_array_index (fst e) \<and> fst e < k) m @ [(k, v)] @
        dropWhile (\<lambda>e. is_array_index (fst e) \<and> fst e < k) m
      else m @ [(k, v)])"

text \<open>\<^verbatim>\<open>Object.assign(target, source)\<close>: every entry of the source is put into the target.\<close>

definition js_assign :: "(nat \<times> 'a) list \<Rightarrow> (nat \<times> 'a) list \<Rightarrow> (nat \<times> 'a) list" where
  "js_assign target source = fold (\<lambda>e acc. js_put (fst e) (snd e) acc) source target"

subsection \<open>Record maps\<close>

definition getRecordTypes :: "node \<Rightarrow> string list" where
  "getRecordTypes n = (case records n of None \<Rightarrow> [] | Some rs \<Rightarrow> map fst rs)"

text \<open>
  The read \<^verbatim>\<open>this._json.records?.[type]\<close>. \<open>ownRecordMap n t\<close> is the record map that \<^verbatim>\<open>records\<close>
  holds under the key \<open>t\<close>. Where \<^verbatim>\<open>records\<close> is an object without that key, the read goes on
  to the prototype: for a name of \<open>objectPrototypeMembers\<close> it finds the member that every
  object inherits from \<^verbatim>\<open>Object.prototype\<close> (\<open>inheritedMember\<close>), for any other name it gives
  \<^verbatim>\<open>undefined\<close>. \<open>recordsMember n t\<close> says that the read gives a value other than \<^verbatim>\<open>undefined\<close>.

  An inherited member has no enumerable entry and no entry under a number, as long as no
  call has written one into it. Read as a record map it gives what the empty object gives,
  which is what \<open>getRecordMapOfType\<close> and \<open>getRecordOfType\<close> return for it.
\<close>

definition ownRecordMap :: "node \<Rightarrow> string \<Rightarrow> recordMap option" where
  "ownRecordMap n t = (case records n of None \<Rightarrow> None | Some rs \<Rightarrow> map_of rs t)"

definition objectPrototypeMembers :: "string list" where
  "objectPrototypeMembers =
     [''constructor'', ''__defineGetter__'', ''__defineSetter__'', ''hasOwnProperty'',
      ''__lookupGetter__'', ''__lookupSetter__'', ''isPrototypeOf'', ''propertyIsEnumerable'',
      ''toString'', ''valueOf'', ''__proto__'', ''toLocaleString'']"

definition inheritedMember :: "node \<Rightarrow> string \<Rightarrow> bool" where
  "inheritedMember n t =
     (records n \<noteq> None \<and> ownRecordMap n t = None \<and> t \<in> set objectPrototypeMembers)"

definition recordsMember :: "node \<Rightarrow> string \<Rightarrow> bool" where
  "recordsMember n t = (ownRecordMap n t \<noteq> None \<or> inheritedMember n t)"

definition getRecordMapOfType :: "node \<Rightarrow> string \<Rightarrow> recordMap" where
  "getRecordMapOfType n t =
     (case records n of None \<Rightarrow> []
      | Some rs \<Rightarrow> (case map_of rs t of None \<Rightarrow> [] | Some rm \<Rightarrow> rm))"

definition getRecordOfType :: "node \<Rightarrow> string \<Rightarrow> nat \<Rightarrow> node option" where
  "getRecordOfType n t k =
     (case records n of None \<Rightarrow> None
      | Some rs \<Rightarrow> (case map_of rs t of None \<Rightarrow> None | Some rm \<Rightarrow> map_of rm k))"

text \<open>
  The record map of type \<open>t\<close> is an object of its own inside \<^verbatim>\<open>this._json.records\<close>; a method
  that writes to the object \<^verbatim>\<open>getRecordMapOfType(t)\<close> returns, or to the child nodes it holds,
  changes the tree at that place. \<open>put_recordMapOfType n t rm\<close> is the node after such writes
  have made \<open>rm\<close> of the record map. Where the node has no record map of the type,
  \<^verbatim>\<open>getRecordMapOfType\<close> returns a new empty object, or an inherited member, and the writes
  do not reach the tree.
\<close>

definition put_recordMapOfType :: "node \<Rightarrow> string \<Rightarrow> recordMap \<Rightarrow> node" where
  "put_recordMapOfType n t rm =
     (case ownRecordMap n t of
        None \<Rightarrow> n
      | Some old \<Rightarrow> with_records n (map_option (AList.update t rm) (records n)))"

subsection \<open>Sorted records and the backfill of missing orders\<close>

text \<open>
  \<^verbatim>\<open>ensureOrderKeyPresentOfType\<close>. The first loop leaves at the first value without an
  order; \<open>scanMaxOrder\<close> returns \<^verbatim>\<open>(undefinedFound, maxOrder)\<close> as they stand after it. The
  second loop is \<open>fillOrders\<close>.
\<close>

fun scanMaxOrder :: "node list \<Rightarrow> rat \<Rightarrow> bool \<times> rat" where
  "scanMaxOrder [] maxOrder = (False, maxOrder)"
| "scanMaxOrder (v # vs) maxOrder =
     (case order v of
        None \<Rightarrow> (True, maxOrder)
      | Some ord \<Rightarrow> scanMaxOrder vs (if ord > maxOrder then ord else maxOrder))"

fun fillOrders :: "recordMap \<Rightarrow> rat \<Rightarrow> recordMap" where
  "fillOrders [] maxOrder = []"
| "fillOrders ((k, v) # es) maxOrder =
     (case order v of
        None \<Rightarrow> (k, with_order v (Some (maxOrder + 1))) # fillOrders es (maxOrder + 1)
      | Some ord \<Rightarrow> (k, v) # fillOrders es maxOrder)"

definition ensureOrderKeyPresentOfType :: "node \<Rightarrow> string \<Rightarrow> node" where
  "ensureOrderKeyPresentOfType n t =
     (let rm = getRecordMapOfType n t;
          (undefinedFound, maxOrder) = scanMaxOrder (map snd rm) 0
      in if \<not> undefinedFound then n else put_recordMapOfType n t (fillOrders rm maxOrder))"

text \<open>
  \<^verbatim>\<open>Array.prototype.sort\<close> is stable, as \<open>sort_key\<close> is. After the backfill every order is
  defined, so the \<open>None\<close> case of the key is never taken.
\<close>

definition orderKey :: "node \<Rightarrow> rat" where
  "orderKey v = (case order v of None \<Rightarrow> 0 | Some ord \<Rightarrow> ord)"

definition getSortedRecordEntriesOfType :: "node \<Rightarrow> string \<Rightarrow> node \<times> recordMap" where
  "getSortedRecordEntriesOfType n t =
     (let n' = ensureOrderKeyPresentOfType n t
      in (n', sort_key (\<lambda>e. orderKey (snd e)) (getRecordMapOfType n' t)))"

definition getSortedRecordIdsOfType :: "node \<Rightarrow> string \<Rightarrow> node \<times> nat list" where
  "getSortedRecordIdsOfType n t =
     (let (n', entriesArray) = getSortedRecordEntriesOfType n t in (n', map fst entriesArray))"

definition getSortedRecordsOfType :: "node \<Rightarrow> string \<Rightarrow> node \<times> node list" where
  "getSortedRecordsOfType n t =
     (let (n', entriesArray) = getSortedRecordEntriesOfType n t in (n', map snd entriesArray))"

subsection \<open>The order allocator\<close>

text \<open>
  \<^verbatim>\<open>getNewOrders\<close>. \<^verbatim>\<open>x?.order ?? 0\<close> is \<open>orderKey\<close>. The three loops are \<open>countUp\<close>,
  \<open>stepDown\<close>/\<open>stepUp\<close> and \<open>segments\<close>. In the last branch \<^verbatim>\<open>sortedRecords[position - 1].order\<close>
  and \<^verbatim>\<open>sortedRecords[position].order\<close> are read without \<^verbatim>\<open>?.\<close>: outside the array they
  throw a TypeError.
\<close>

fun countUp :: "nat \<Rightarrow> nat \<Rightarrow> rat list" where
  "countUp i 0 = []"
| "countUp i (Suc c) = (of_nat i + 1) # countUp (Suc i) c"

fun stepDown :: "rat \<Rightarrow> nat \<Rightarrow> rat list" where
  "stepDown minOrder 0 = []"
| "stepDown minOrder (Suc c) = (minOrder - 1) # stepDown (minOrder - 1) c"

fun stepUp :: "rat \<Rightarrow> nat \<Rightarrow> rat list" where
  "stepUp maxOrder 0 = []"
| "stepUp maxOrder (Suc c) = (maxOrder + 1) # stepUp (maxOrder + 1) c"

fun segments :: "rat \<Rightarrow> rat \<Rightarrow> nat \<Rightarrow> rat \<Rightarrow> nat \<Rightarrow> rat list" where
  "segments prevOrder nextOrder newRecordsCount segment 0 = []"
| "segments prevOrder nextOrder newRecordsCount segment (Suc c) =
     (prevOrder + (nextOrder - prevOrder) / (of_nat newRecordsCount + 1) * (segment + 1))
       # segments prevOrder nextOrder newRecordsCount (segment + 1) c"

definition getNewOrders :: "node list \<Rightarrow> nat \<Rightarrow> int option \<Rightarrow> error + rat list" where
  "getNewOrders sortedRecords newRecordsCount position =
     (let minOrder = (case sortedRecords of [] \<Rightarrow> 0 | r # _ \<Rightarrow> orderKey r);
          maxOrder = (if sortedRecords = [] then 0 else orderKey (last sortedRecords))
      in if length sortedRecords = 0 then Inr (countUp 0 newRecordsCount)
         else if position = Some 0 then Inr (stepDown minOrder newRecordsCount)
         else if position = Some (int (length sortedRecords)) \<or> position = None
           then Inr (stepUp maxOrder newRecordsCount)
         else (case position of
                 None \<Rightarrow> Inl TypeError
               | Some p \<Rightarrow>
                   if p - 1 < 0 \<or> int (length sortedRecords) \<le> p - 1 then Inl TypeError
                   else if int (length sortedRecords) \<le> p then Inl TypeError
                   else Inr (segments (orderKey (sortedRecords ! nat (p - 1)))
                                      (orderKey (sortedRecords ! nat p))
                                      newRecordsCount 0 newRecordsCount)))"

subsection \<open>The order allocator in double arithmetic\<close>

text \<open>
  A JavaScript number is an IEEE 754 double. \<open>double\<close> has the finite doubles, as rationals,
  the two infinities and \<^verbatim>\<open>NaN\<close>; the two zeros are one value, \<open>Fin 0\<close>.

  \<open>roundToDouble x\<close> is the double nearest to the rational \<open>x\<close>, a tie going to the even
  significand. \<open>exponentOf a\<close> is the binary exponent of a positive \<open>a\<close>, the \<open>e\<close> with
  \<open>2^e \<le> a < 2^(e+1)\<close>; below \<open>-1022\<close> the doubles are subnormal and the exponent stays
  \<open>-1022\<close>. A double has 53 significant bits, so the doubles at exponent \<open>e\<close> are the multiples
  of \<open>pow2 (e - 52)\<close>. A rounded magnitude of \<open>2^1024\<close> or more is an infinity.
\<close>

datatype double = Fin rat | PosInfinity | NegInfinity | NaN

definition pow2 :: "int \<Rightarrow> rat" where
  "pow2 e = (if 0 \<le> e then 2 ^ nat e else 1 / 2 ^ nat (- e))"

fun bitLength :: "nat \<Rightarrow> nat" where
  "bitLength n = (if n = 0 then 0 else Suc (bitLength (n div 2)))"

declare bitLength.simps [simp del]

definition exponentOf :: "rat \<Rightarrow> int" where
  "exponentOf a =
     (if 1 \<le> a then int (bitLength (nat \<lfloor>a\<rfloor>)) - 1
      else - int (bitLength (nat (\<lceil>1 / a\<rceil> - 1))))"

definition roundHalfEven :: "rat \<Rightarrow> int" where
  "roundHalfEven q =
     (let f = \<lfloor>q\<rfloor>; d = q - of_int f
      in if d < 1 / 2 then f else if 1 / 2 < d then f + 1 else if even f then f else f + 1)"

definition roundToDouble :: "rat \<Rightarrow> double" where
  "roundToDouble x =
     (if x = 0 then Fin 0
      else (let a = \<bar>x\<bar>;
                e = max (exponentOf a) (- 1022);
                ulp = pow2 (e - 52);
                y = of_int (roundHalfEven (a / ulp)) * ulp
            in if pow2 1024 \<le> y then (if 0 < x then PosInfinity else NegInfinity)
               else Fin (if 0 < x then y else - y)))"


text \<open>
  The operators \<^verbatim>\<open>+\<close>, \<^verbatim>\<open>-\<close>, \<^verbatim>\<open>*\<close> and \<^verbatim>\<open>/\<close> of the language: the exact result, rounded. A
  division by a zero gives an infinity whose sign depends on the sign of the zero; it is
  given here for the zero \<^verbatim>\<open>+0\<close>. The allocator divides by \<^verbatim>\<open>newRecordsCount + 1\<close> only, and none
  of its other operations tells the two zeros apart.
\<close>

fun dadd :: "double \<Rightarrow> double \<Rightarrow> double" where
  "dadd (Fin a) (Fin b) = roundToDouble (a + b)"
| "dadd NaN y = NaN"
| "dadd x NaN = NaN"
| "dadd PosInfinity NegInfinity = NaN"
| "dadd NegInfinity PosInfinity = NaN"
| "dadd PosInfinity y = PosInfinity"
| "dadd x PosInfinity = PosInfinity"
| "dadd NegInfinity y = NegInfinity"
| "dadd x NegInfinity = NegInfinity"

fun dneg :: "double \<Rightarrow> double" where
  "dneg (Fin a) = Fin (- a)"
| "dneg PosInfinity = NegInfinity"
| "dneg NegInfinity = PosInfinity"
| "dneg NaN = NaN"

definition dsub :: "double \<Rightarrow> double \<Rightarrow> double" where
  "dsub x y = dadd x (dneg y)"

fun dmul :: "double \<Rightarrow> double \<Rightarrow> double" where
  "dmul (Fin a) (Fin b) = roundToDouble (a * b)"
| "dmul NaN y = NaN"
| "dmul x NaN = NaN"
| "dmul PosInfinity (Fin b) = (if b = 0 then NaN else if 0 < b then PosInfinity else NegInfinity)"
| "dmul NegInfinity (Fin b) = (if b = 0 then NaN else if 0 < b then NegInfinity else PosInfinity)"
| "dmul (Fin a) PosInfinity = (if a = 0 then NaN else if 0 < a then PosInfinity else NegInfinity)"
| "dmul (Fin a) NegInfinity = (if a = 0 then NaN else if 0 < a then NegInfinity else PosInfinity)"
| "dmul PosInfinity PosInfinity = PosInfinity"
| "dmul PosInfinity NegInfinity = NegInfinity"
| "dmul NegInfinity PosInfinity = NegInfinity"
| "dmul NegInfinity NegInfinity = PosInfinity"

fun ddiv :: "double \<Rightarrow> double \<Rightarrow> double" where
  "ddiv (Fin a) (Fin b) =
     (if b = 0 then (if a = 0 then NaN else if 0 < a then PosInfinity else NegInfinity)
      else roundToDouble (a / b))"
| "ddiv NaN y = NaN"
| "ddiv x NaN = NaN"
| "ddiv (Fin a) PosInfinity = Fin 0"
| "ddiv (Fin a) NegInfinity = Fin 0"
| "ddiv PosInfinity (Fin b) = (if 0 \<le> b then PosInfinity else NegInfinity)"
| "ddiv NegInfinity (Fin b) = (if 0 \<le> b then NegInfinity else PosInfinity)"
| "ddiv PosInfinity PosInfinity = NaN"
| "ddiv PosInfinity NegInfinity = NaN"
| "ddiv NegInfinity PosInfinity = NaN"
| "ddiv NegInfinity NegInfinity = NaN"

declare dadd.simps [simp del] dmul.simps [simp del] ddiv.simps [simp del]

text \<open>
  \<^verbatim>\<open>getNewOrders\<close> with the arithmetic of the language; \<open>getNewOrders\<close> above is the same method
  with exact arithmetic, and the two agree as long as no operation rounds. The method is
  private: \<^verbatim>\<open>addRecord\<close> calls it with \<^verbatim>\<open>newRecordsCount\<close> 1 and \<^verbatim>\<open>reorderRecords\<close> with the
  length of an array, which is below \<open>2^32\<close>, so the count and the loop counter \<^verbatim>\<open>i\<close> are
  integers that a double holds exactly. The orders of the records are finite doubles.
\<close>

fun countUp_double :: "nat \<Rightarrow> nat \<Rightarrow> double list" where
  "countUp_double i 0 = []"
| "countUp_double i (Suc c) = dadd (Fin (of_nat i)) (Fin 1) # countUp_double (Suc i) c"

fun stepDown_double :: "double \<Rightarrow> nat \<Rightarrow> double list" where
  "stepDown_double minOrder 0 = []"
| "stepDown_double minOrder (Suc c) =
     dsub minOrder (Fin 1) # stepDown_double (dsub minOrder (Fin 1)) c"

fun stepUp_double :: "double \<Rightarrow> nat \<Rightarrow> double list" where
  "stepUp_double maxOrder 0 = []"
| "stepUp_double maxOrder (Suc c) =
     dadd maxOrder (Fin 1) # stepUp_double (dadd maxOrder (Fin 1)) c"

fun segments_double :: "double \<Rightarrow> double \<Rightarrow> nat \<Rightarrow> double \<Rightarrow> nat \<Rightarrow> double list" where
  "segments_double prevOrder nextOrder newRecordsCount segment 0 = []"
| "segments_double prevOrder nextOrder newRecordsCount segment (Suc c) =
     dadd prevOrder
       (dmul (ddiv (dsub nextOrder prevOrder) (dadd (Fin (of_nat newRecordsCount)) (Fin 1)))
             (dadd segment (Fin 1)))
       # segments_double prevOrder nextOrder newRecordsCount (dadd segment (Fin 1)) c"


subsection \<open>Reordering\<close>

text \<open>
  \<^verbatim>\<open>reorderRecords\<close>. \<^verbatim>\<open>sortedRecords[i]\<close> is the child object stored under the \<open>i\<close>-th sorted
  id, so \<^verbatim>\<open>sortedRecords[i].order = allOrders[i]\<close> writes to that child; past the end of
  \<^verbatim>\<open>allOrders\<close> the value written is \<^verbatim>\<open>undefined\<close>. \<open>update_record n t k f\<close> is a write to the
  child stored under id \<open>k\<close> in the record map of type \<open>t\<close>.
\<close>

definition update_record :: "node \<Rightarrow> string \<Rightarrow> nat \<Rightarrow> (node \<Rightarrow> node) \<Rightarrow> node" where
  "update_record n t k f = put_recordMapOfType n t (AList.map_entry k f (getRecordMapOfType n t))"

fun assignOrders :: "string \<Rightarrow> recordMap \<Rightarrow> rat list \<Rightarrow> node \<Rightarrow> node" where
  "assignOrders t [] allOrders n = n"
| "assignOrders t (e # sortedEntries) allOrders n =
     assignOrders t sortedEntries (tl allOrders)
       (update_record n t (fst e)
          (\<lambda>r. with_order r (case allOrders of [] \<Rightarrow> None | x # _ \<Rightarrow> Some x)))"

definition reorderRecords :: "node \<Rightarrow> string \<Rightarrow> nat list \<Rightarrow> int \<Rightarrow> error + node" where
  "reorderRecords n t ids position =
     (let (n', sortedEntries) = getSortedRecordEntriesOfType n t
      in case getNewOrders (map snd sortedEntries) (length ids) (Some position) of
           Inl err \<Rightarrow> Inl err
         | Inr allOrders \<Rightarrow> Inr (assignOrders t sortedEntries allOrders n'))"

subsection \<open>The merged record map and the deep traversals\<close>

text \<open>
  \<^verbatim>\<open>getRecordMap\<close> builds a new object and copies every record map into it with
  \<^verbatim>\<open>Object.assign\<close>, in the order of the record types: a later type overwrites an id of an
  earlier one. The values are the child objects themselves; the model keeps with each of
  them the type whose record map holds it, so that a write to the child can be placed.
\<close>

definition getRecordMap :: "node \<Rightarrow> (nat \<times> string \<times> node) list" where
  "getRecordMap n =
     (case records n of
        None \<Rightarrow> []
      | Some rs \<Rightarrow>
          fold (\<lambda>t recordMap.
                  js_assign recordMap (map (\<lambda>e. (fst e, (t, snd e))) (getRecordMapOfType n t)))
               (getRecordTypes n) [])"

definition getRecord :: "node \<Rightarrow> nat \<Rightarrow> node option" where
  "getRecord n k = map_option snd (map_of (getRecordMap n) k)"

definition rewriteProps :: "nat \<Rightarrow> nat \<Rightarrow> (string \<times> pval) list \<Rightarrow> (string \<times> pval) list" where
  "rewriteProps rid newId ps =
     map (\<lambda>e. (fst e, if snd e = PNum (of_nat rid) then PNum (of_nat newId) else snd e)) ps"

text \<open>
  \<^verbatim>\<open>getDeepRecordMap\<close> and the body of \<^verbatim>\<open>changeDeepRecordId\<close> once \<^verbatim>\<open>newId\<close> is known (every
  recursive call passes it). \<^verbatim>\<open>new RecordFactory(child)\<close> throws when the child's type is not
  a known record type.

  In \<^verbatim>\<open>changeDeepRecordId\<close> the loop runs over \<^verbatim>\<open>Object.entries(recordMap)\<close>, taken before the
  loop from the object that \<^verbatim>\<open>getRecordMap()\<close> has just built. The statements
  \<^verbatim>\<open>recordMap[newId] = recordMap[id]; delete recordMap[id]\<close> write to that object, which is
  dropped when the method returns; they change neither \<^verbatim>\<open>this._json.records\<close> nor the entries
  of the loop, and so have no counterpart here. The recursive call mutates the child object
  in place: the child stored under its id in the record map of its type.
\<close>

function getDeepRecordMap :: "registry \<Rightarrow> node \<Rightarrow> error + (nat \<times> node) list"
  and changeDeepRecordId_to :: "registry \<Rightarrow> nat \<Rightarrow> nat \<Rightarrow> node \<Rightarrow> error + node"
where
  "getDeepRecordMap reg n =
     (let children = getRecordMap n
      in fold (\<lambda>e acc.
                 case acc of
                   Inl err \<Rightarrow> Inl err
                 | Inr recordMap \<Rightarrow>
                     if \<not> isRecordType reg (type (snd (snd e))) then Inl UnknownRecordType
                     else (case getDeepRecordMap reg (snd (snd e)) of
                             Inl err \<Rightarrow> Inl err
                           | Inr childSubRecords \<Rightarrow> Inr (js_assign recordMap childSubRecords)))
              children
              (Inr (js_assign [] (map (\<lambda>e. (fst e, snd (snd e))) children))))"
| "changeDeepRecordId_to reg rid newId n =
     (let n1 = with_props n (rewriteProps rid newId (props n))
      in fold (\<lambda>e acc.
                 case acc of
                   Inl err \<Rightarrow> Inl err
                 | Inr cur \<Rightarrow>
                     if \<not> isRecordType reg (type (snd (snd e))) then Inl UnknownRecordType
                     else (case changeDeepRecordId_to reg rid newId (snd (snd e)) of
                             Inl err \<Rightarrow> Inl err
                           | Inr v \<Rightarrow> Inr (update_record cur (fst (snd e)) (fst e) (\<lambda>_. v))))
              (getRecordMap n1)
              (Inr n1))"
  by pat_completeness auto
termination
proof (relation "measure (\<lambda>x. case x of Inl (reg, n) \<Rightarrow> size n | Inr (reg, rid, newId, n) \<Rightarrow> size n)")
  have upd: "set (AList.update k v m) \<subseteq> insert (k, v) (set m)"
    for k :: nat and v :: "string \<times> node" and m
    by (induction m) auto
  have put: "set (js_put k v m) \<subseteq> insert (k, v) (set m)"
    for k and v :: "string \<times> node" and m
    using upd[of k v m]
    by (auto simp: js_put_def dest: set_takeWhileD set_dropWhileD)
  have assign: "set (js_assign tgt src) \<subseteq> set tgt \<union> set src"
    for tgt src :: "(nat \<times> string \<times> node) list"
    unfolding js_assign_def
  proof (induction src arbitrary: tgt)
    case Nil
    show ?case by simp
  next
    case (Cons e src)
    show ?case using Cons[of "js_put (fst e) (snd e) tgt"] put[of "fst e" "snd e" tgt] by auto
  qed
  have types: "set (fold (\<lambda>t acc. js_assign acc (f t)) ts acc0) \<subseteq> set acc0 \<union> (\<Union>t\<in>set ts. set (f t))"
    for f :: "string \<Rightarrow> (nat \<times> string \<times> node) list" and ts acc0
  proof (induction ts arbitrary: acc0)
    case Nil
    show ?case by simp
  next
    case (Cons t ts)
    show ?case using Cons[of "js_assign acc0 (f t)"] assign[of acc0 "f t"] by auto
  qed
  have child: "size c < size n" if "(k, c) \<in> set (getRecordMapOfType n t)" for k c n t
  proof (cases n)
    case (Node nm ty ord ps rs)
    from that obtain rss rm where rs: "rs = Some rss" and rm: "(t, rm) \<in> set rss" and c: "(k, c) \<in> set rm"
      by (auto simp: getRecordMapOfType_def Node split: option.splits dest: map_of_SomeD map_of_SomeD[OF sym])
    have "size c \<le> size_list (size_prod (\<lambda>x. 0) size) rm"
      using c by (intro size_list_estimation'[where x = "(k, c)"]) auto
    also have "\<dots> < size_prod (\<lambda>x. 0) (size_list (size_prod (\<lambda>x. 0) size)) (t, rm)"
      by simp
    also have "\<dots> \<le> size_list (size_prod (\<lambda>x. 0) (size_list (size_prod (\<lambda>x. 0) size))) rss"
      using rm by (intro size_list_estimation'[where x = "(t, rm)"]) auto
    finally show ?thesis by (simp add: Node rs)
  qed
  have sub: "size (snd (snd e)) < size n" if "e \<in> set (getRecordMap n)" for e n
  proof -
    from that obtain rss where "records n = Some rss"
      by (cases "records n") (auto simp: getRecordMap_def)
    with that types[of "\<lambda>t. map (\<lambda>e. (fst e, (t, snd e))) (getRecordMapOfType n t)" "getRecordTypes n" "[]"]
    obtain t e' where "e' \<in> set (getRecordMapOfType n t)" "e = (fst e', (t, snd e'))"
      by (auto simp: getRecordMap_def)
    then show ?thesis using child[of "fst e'" "snd e'" n t] by simp
  qed
  show "wf (measure (\<lambda>x. case x of Inl (reg, n) \<Rightarrow> size n | Inr (reg, rid, newId, n) \<Rightarrow> size n))"
    by simp
  show "(Inl (reg, snd (snd e)), Inl (reg, n))
          \<in> measure (\<lambda>x. case x of Inl (reg, n) \<Rightarrow> size n | Inr (reg, rid, newId, n) \<Rightarrow> size n)"
    if "children = getRecordMap n" "e \<in> set children" for reg n children e
    using that sub[of e n] by simp
  show "(Inr (reg, rid, newId, snd (snd e)), Inr (reg, rid, newId, n))
          \<in> measure (\<lambda>x. case x of Inl (reg, n) \<Rightarrow> size n | Inr (reg, rid, newId, n) \<Rightarrow> size n)"
    if "n1 = with_props n (rewriteProps rid newId (props n))" "e \<in> set (getRecordMap n1)"
    for reg rid newId n n1 e
    using that sub[of e n1] by (cases n) (simp add: with_props_def)
qed



declare getDeepRecordMap.simps [simp del] changeDeepRecordId_to.simps [simp del]

text \<open>
  \<^verbatim>\<open>changeDeepRecordId(id, newId?)\<close>: a missing \<^verbatim>\<open>newId\<close> is generated. The result is the node
  after the call, the number of ids generated so far, and the returned \<^verbatim>\<open>newId\<close>.
\<close>

definition changeDeepRecordId ::
  "registry \<Rightarrow> nat \<Rightarrow> node \<Rightarrow> nat \<Rightarrow> nat option \<Rightarrow> error + node \<times> nat \<times> nat" where
  "changeDeepRecordId reg g n rid newId =
     (let (newId', g') = (case newId of None \<Rightarrow> (generateIdV2 reg g, Suc g) | Some i \<Rightarrow> (i, g))
      in case changeDeepRecordId_to reg rid newId' n of
           Inl err \<Rightarrow> Inl err
         | Inr n' \<Rightarrow> Inr (n', g', newId'))"

text \<open>\<^verbatim>\<open>cycleAllSubRecordIds\<close>: one \<^verbatim>\<open>changeDeepRecordId(Number(key))\<close> per key of the deep record map.\<close>

definition cycleAllSubRecordIds :: "registry \<Rightarrow> nat \<Rightarrow> node \<Rightarrow> error + node \<times> nat" where
  "cycleAllSubRecordIds reg g n =
     (case getDeepRecordMap reg n of
        Inl err \<Rightarrow> Inl err
      | Inr allRecordsMap \<Rightarrow>
          fold (\<lambda>key acc.
                  case acc of
                    Inl err \<Rightarrow> Inl err
                  | Inr (cur, g1) \<Rightarrow>
                      (case changeDeepRecordId reg g1 cur key None of
                         Inl err \<Rightarrow> Inl err
                       | Inr (cur', g2, newId) \<Rightarrow> Inr (cur', g2)))
               (map fst allRecordsMap)
               (Inr (n, g)))"

subsection \<open>Addresses\<close>

text \<open>
  Template strings print an id in decimal (\<open>showNat\<close>; JavaScript switches to exponent
  notation from \<open>10^21\<close> on, far above any id a double holds exactly). \<^verbatim>\<open>Number(s)\<close> is
  modelled on runs of decimal digits, the empty string included (\<^verbatim>\<open>Number("")\<close> is \<open>0\<close>);
  \<^verbatim>\<open>Number(undefined)\<close> is \<^verbatim>\<open>NaN\<close>, and so is every string that is not a numeric literal.
  A string in another numeric notation (sign, blanks, fraction, exponent, hexadecimal) is
  treated as \<^verbatim>\<open>NaN\<close> too: its value is outside this model. No record map has a key \<^verbatim>\<open>NaN\<close>
  here, so a lookup with it finds nothing.
\<close>

definition digitChar :: "nat \<Rightarrow> char" where
  "digitChar d = ''0123456789'' ! d"

fun showNat :: "nat \<Rightarrow> string" where
  "showNat n = (if n < 10 then [digitChar n] else showNat (n div 10) @ [digitChar (n mod 10)])"

declare showNat.simps [simp del]

definition digitVal :: "char \<Rightarrow> nat option" where
  "digitVal c =
     map_of [(CHR ''0'', 0), (CHR ''1'', 1), (CHR ''2'', 2), (CHR ''3'', 3), (CHR ''4'', 4),
             (CHR ''5'', 5), (CHR ''6'', 6), (CHR ''7'', 7), (CHR ''8'', 8), (CHR ''9'', 9)] c"

fun parseDigits :: "string \<Rightarrow> nat \<Rightarrow> nat option" where
  "parseDigits [] acc = Some acc"
| "parseDigits (c # cs) acc =
     (case digitVal c of None \<Rightarrow> None | Some d \<Rightarrow> parseDigits cs (10 * acc + d))"

definition js_Number :: "string option \<Rightarrow> nat option" where
  "js_Number s = (case s of None \<Rightarrow> None | Some ds \<Rightarrow> parseDigits ds 0)"

text \<open>\<^verbatim>\<open>s.split(c)\<close> for a one-character separator: never an empty array.\<close>

fun js_split :: "char \<Rightarrow> string \<Rightarrow> string list" where
  "js_split c [] = [[]]"
| "js_split c (x # xs) =
     (if x = c then [] # js_split c xs
      else (case js_split c xs of [] \<Rightarrow> [[x]] | w # ws \<Rightarrow> (x # w) # ws))"

text \<open>
  \<^verbatim>\<open>addr.replace(/!.*/, "")\<close>: the first \<^verbatim>\<open>!\<close> and what follows it up to the end of the line
  go; \<^verbatim>\<open>.\<close> does not match a line terminator.
\<close>

definition lineTerminator :: "char \<Rightarrow> bool" where
  "lineTerminator c = (c = CHR 0x0A \<or> c = CHR 0x0D)"

definition stripProperty :: "string \<Rightarrow> string" where
  "stripProperty addr =
     takeWhile (\<lambda>c. c \<noteq> CHR ''!'') addr @
     dropWhile (\<lambda>c. \<not> lineTerminator c) (dropWhile (\<lambda>c. c \<noteq> CHR ''!'') addr)"

text \<open>
  \<^verbatim>\<open>getAddress({id, type, selfAddr, property, index})\<close>. An empty string is falsy, so an
  empty \<^verbatim>\<open>type\<close>, \<^verbatim>\<open>selfAddr\<close> or \<^verbatim>\<open>property\<close> counts as not given: \<open>truthy s\<close> is the string
  when it is given and not empty.
\<close>

definition truthy :: "string option \<Rightarrow> string option" where
  "truthy s = (case s of None \<Rightarrow> None | Some v \<Rightarrow> if v = [] then None else Some v)"

definition getAddress ::
  "node \<Rightarrow> nat \<Rightarrow> string option \<Rightarrow> string option \<Rightarrow> string option \<Rightarrow> nat option \<Rightarrow> string" where
  "getAddress n k typ selfAddr property index =
     (let record = (case truthy typ of Some t \<Rightarrow> getRecordOfType n t k | None \<Rightarrow> getRecord n k)
      in case record of
           None \<Rightarrow> []
         | Some rec \<Rightarrow>
             (let typ' = (case truthy typ of Some t \<Rightarrow> t | None \<Rightarrow> type rec);
                  childPartialAddress = typ' @ '':'' @ showNat k;
                  address = (case truthy selfAddr of
                               Some self \<Rightarrow> self @ ''|'' @ childPartialAddress
                             | None \<Rightarrow> childPartialAddress)
              in case truthy property of
                   None \<Rightarrow> address
                 | Some prop \<Rightarrow>
                     address @ ''!'' @
                     (case index of None \<Rightarrow> prop | Some i \<Rightarrow> prop @ ''>'' @ showNat i)))"

datatype rAndP = RAndP (rp_id: nat) (rp_r: node) (rp_p: node)

text \<open>
  The loop of \<^verbatim>\<open>getRecordAndParentWithAddress\<close> over the segments that are left, with the
  values of \<^verbatim>\<open>parentR\<close>, \<^verbatim>\<open>childR\<close> and \<^verbatim>\<open>childId\<close> at the start of the iteration. A
  segment is split at \<^verbatim>\<open>:\<close> into the type, the id (\<^verbatim>\<open>undefined\<close> when there is no \<^verbatim>\<open>:\<close>) and
  parts that are ignored; the split never gives an empty array.
\<close>

fun resolveSegments ::
  "registry \<Rightarrow> string list \<Rightarrow> node \<Rightarrow> node \<Rightarrow> nat \<Rightarrow> error + rAndP option" where
  "resolveSegments reg [] parentR childR childId = Inr (Some (RAndP childId childR parentR))"
| "resolveSegments reg (seg # segs) parentR childR childId =
     (case js_split (CHR '':'') seg of
        [] \<Rightarrow> Inr None
      | typ # rest \<Rightarrow>
          (let idNum = js_Number (case rest of [] \<Rightarrow> None | i # _ \<Rightarrow> Some i)
           in if \<not> isRecordType reg (type childR) then Inl UnknownRecordType
              else (case idNum of
                      None \<Rightarrow> Inr None
                    | Some k \<Rightarrow>
                        (case getRecordOfType childR typ k of
                           None \<Rightarrow> Inr None
                         | Some newChild \<Rightarrow> resolveSegments reg segs childR newChild k))))"

definition getRecordAndParentWithAddress :: "registry \<Rightarrow> node \<Rightarrow> string \<Rightarrow> error + rAndP option" where
  "getRecordAndParentWithAddress reg n addr =
     (let recordStringArray = js_split (CHR ''|'') (stripProperty addr)
      in if length recordStringArray = 0 \<or> records n = None then Inr None
         else resolveSegments reg recordStringArray n n 0)"

datatype idOrAddress = IdNum nat | Addr string

definition getDeepRecord :: "registry \<Rightarrow> node \<Rightarrow> idOrAddress \<Rightarrow> error + node option" where
  "getDeepRecord reg n idOrAddr =
     (case idOrAddr of
        IdNum k \<Rightarrow>
          (case getDeepRecordMap reg n of
             Inl err \<Rightarrow> Inl err
           | Inr m \<Rightarrow> Inr (map_of m k))
      | Addr addr \<Rightarrow>
          (case getRecordAndParentWithAddress reg n addr of
             Inl err \<Rightarrow> Inl err
           | Inr res \<Rightarrow> Inr (map_option rp_r res)))"

subsection \<open>Adding and duplicating records\<close>

text \<open>
  \<^verbatim>\<open>initializeRecordMap\<close>: the result and the node after the call. The check against the
  type registry is made only when \<^verbatim>\<open>this._json.records?.[type]\<close> is \<^verbatim>\<open>undefined\<close>.
\<close>

definition initializeRecordMap :: "registry \<Rightarrow> node \<Rightarrow> string \<Rightarrow> bool \<times> node" where
  "initializeRecordMap reg n t =
     (if \<not> isRecordType reg t then (False, n)
      else if \<not> recordsMember n t
        then (if \<not> isTypeChildOf reg (type n) t then (False, n)
              else (True, with_records n
                            (Some (AList.update t []
                                     (case records n of None \<Rightarrow> [] | Some rs \<Rightarrow> rs)))))
        else (True, n))"

text \<open>
  \<^verbatim>\<open>changeRecordName\<close>: the node after the call and the returned record. The table
  \<^verbatim>\<open>recordTypeDefinitions\<close> is taken to have an entry for the known record types and no
  other, so that the read of \<^verbatim>\<open>.defaultName\<close> throws for a type that is not known; \<^verbatim>\<open>addRecord\<close>
  calls the method with a known type only.
\<close>

definition changeRecordName ::
  "registry \<Rightarrow> node \<Rightarrow> string \<Rightarrow> nat \<Rightarrow> string option \<Rightarrow> error + node \<times> node option" where
  "changeRecordName reg n t k newName =
     (case getRecordOfType n t k of
        None \<Rightarrow> Inr (n, None)
      | Some record \<Rightarrow>
          if \<not> isRecordType reg t then Inl TypeError
          else (case defaultName reg t of
                  None \<Rightarrow> Inr (n, None)
                | Some dflt \<Rightarrow>
                    (let newName' = (case newName of None \<Rightarrow> dflt | Some nm \<Rightarrow> nm);
                         existingNames =
                           List.map_filter (\<lambda>e. name (snd e))
                             (filter (\<lambda>e. fst e \<noteq> k) (getRecordMapOfType n t));
                         record' =
                           (if newName' \<in> set existingNames
                            then with_name record
                                   (Some (getSafeAndUniqueRecordName reg newName' existingNames))
                            else with_name record (Some newName'))
                     in Inr (update_record n t k (\<lambda>_. record'), Some record'))))"

text \<open>
  \<^verbatim>\<open>addRecord({record, position, id, dontCycleSubRecordIds})\<close> on the factory's own node (no
  \<^verbatim>\<open>parentIdOrAddress\<close>; with one, the source makes this same call on the factory of the
  parent it resolves). The result is the node after the call, the number of ids generated
  so far, and the returned \<^verbatim>\<open>{id, record}\<close> or \<^verbatim>\<open>undefined\<close>. The returned record is the
  object that was passed in, as the call leaves it: with its new order, its rewritten
  property values and its name. The record is taken to be an object of its own, not one
  that the tree already holds. Where \<^verbatim>\<open>getRecordMapOfType(type)\<close> is an inherited member,
  \<^verbatim>\<open>recordMap[id] = record\<close> writes into that member: the result is \<open>PrototypeWrite\<close>.
\<close>

definition addRecord ::
  "registry \<Rightarrow> nat \<Rightarrow> node \<Rightarrow> node \<Rightarrow> int option \<Rightarrow> nat option \<Rightarrow> bool
     \<Rightarrow> error + node \<times> nat \<times> (nat \<times> node) option" where
  "addRecord reg g n record position rid dontCycleSubRecordIds =
     (let typ = type record;
          (ok, n1) = initializeRecordMap reg n typ
      in if \<not> ok then Inr (n1, g, None)
         else
           (let (n2, recordsArray) = getSortedRecordsOfType n1 typ
            in case getNewOrders recordsArray 1 position of
                 Inl err \<Rightarrow> Inl err
               | Inr orders \<Rightarrow>
                   (let record1 = with_order record (case orders of [] \<Rightarrow> None | x # _ \<Rightarrow> Some x)
                    in case (if \<not> dontCycleSubRecordIds then cycleAllSubRecordIds reg g record1
                             else Inr (record1, g)) of
                         Inl err \<Rightarrow> Inl err
                       | Inr (record2, g1) \<Rightarrow>
                           (let (rid', g2) =
                                  (case rid of None \<Rightarrow> (generateIdV2 reg g1, Suc g1)
                                   | Some i \<Rightarrow> (i, g1));
                                n3 = put_recordMapOfType n2 typ
                                       (js_put rid' record2 (getRecordMapOfType n2 typ))
                            in if inheritedMember n2 typ then Inl PrototypeWrite
                               else
                                 (case changeRecordName reg n3 typ rid' (name record2) of
                                    Inl err \<Rightarrow> Inl err
                                  | Inr (n4, renamed) \<Rightarrow>
                                      Inr (n4, g2,
                                           Some (rid', case renamed of None \<Rightarrow> record2
                                                       | Some record3 \<Rightarrow> record3)))))))"

text \<open>
  \<^verbatim>\<open>duplicateRecord(type, id)\<close>. \<^verbatim>\<open>deepClone\<close> gives an object with the same value.
  \<^verbatim>\<open>ids.indexOf(id)\<close> is \<open>-1\<close> when the id is not among the sorted ids.
\<close>

fun indexOf :: "nat list \<Rightarrow> nat \<Rightarrow> int" where
  "indexOf [] k = - 1"
| "indexOf (x # xs) k = (if x = k then 0 else (let i = indexOf xs k in if i < 0 then - 1 else i + 1))"

definition duplicateRecord ::
  "registry \<Rightarrow> nat \<Rightarrow> node \<Rightarrow> string \<Rightarrow> nat \<Rightarrow> error + node \<times> nat \<times> (nat \<times> node) option" where
  "duplicateRecord reg g n t k =
     (case getRecordOfType n t k of
        None \<Rightarrow> Inr (n, g, None)
      | Some orig \<Rightarrow>
          (let clonedJson = orig;
               (n1, ids) = getSortedRecordIdsOfType n (type orig);
               origPositionIndex = indexOf ids k
           in addRecord reg g n1 clonedJson (Some (origPositionIndex + 1)) None False))"

subsection \<open>Notions used to state the properties\<close>

text \<open>
  \<open>all_ids n\<close> lists the ids under which the record nodes below \<open>n\<close> are stored, at every
  level and in every record map. \<open>getAt n path\<close> is the node reached from \<open>n\<close> along a path of
  (type, id) steps. \<open>wf_json n\<close> says that \<open>n\<close> stands for a tree of JavaScript objects: no
  object has a key twice.
\<close>

fun all_ids :: "node \<Rightarrow> nat list" where
  "all_ids (Node nm t ord ps rs) =
     (case rs of
        None \<Rightarrow> []
      | Some r \<Rightarrow> concat (map (\<lambda>tm. concat (map (\<lambda>e. fst e # all_ids (snd e)) (snd tm))) r))"

fun wf_json :: "node \<Rightarrow> bool" where
  "wf_json (Node nm t ord ps rs) =
     (distinct (map fst ps) \<and>
      (case rs of
         None \<Rightarrow> True
       | Some r \<Rightarrow>
           distinct (map fst r) \<and>
           list_all (\<lambda>tm. distinct (map fst (snd tm)) \<and> list_all (\<lambda>e. wf_json (snd e)) (snd tm)) r))"



fun rewriteTree :: "nat \<Rightarrow> nat \<Rightarrow> node \<Rightarrow> node" where
  "rewriteTree rid newId (Node nm t ord ps rs) =
     Node nm t ord (rewriteProps rid newId ps)
       (map_option (map (\<lambda>tm. (fst tm, map (\<lambda>e. (fst e, rewriteTree rid newId (snd e))) (snd tm)))) rs)"



section \<open>Example trees\<close>

text \<open>
  A registry with four record types: a project holds scenes and variables, a scene holds
  elements; only scenes are named. The ids it generates are 1000, 1001, ...
\<close>

definition regAll :: registry where
  "regAll = \<lparr> isRecordType = (\<lambda>t. t \<in> {''project'', ''scene'', ''element'', ''variable''}),
               isTypeChildOf = (\<lambda>p t. (p, t) \<in> {(''project'', ''scene''), (''project'', ''variable''),
                                                 (''scene'', ''element'')}),
               defaultName = (\<lambda>t. if t = ''scene'' then Some ''Scene'' else None),
               getSafeAndUniqueRecordName = (\<lambda>nm taken. nm @ ''_'' @ showNat (length taken)),
               generateIdV2 = (\<lambda>k. 1000 + k) \<rparr>"




text \<open>
  Projects with two scenes, stored under the ids 1 and 2: in \<open>exLegacy\<close> the first has no
  order and the second has order 5; in \<open>exTwoScenes\<close> they have the orders 1 and 2.
\<close>

definition sceneNode :: "rat option \<Rightarrow> node" where
  "sceneNode ord = Node None ''scene'' ord [] None"

definition exLegacy :: node where
  "exLegacy = Node None ''project'' None []
     (Some [(''scene'', [(1, sceneNode None), (2, sceneNode (Some 5))])])"

definition exTwoScenes :: node where
  "exTwoScenes = Node None ''project'' None []
     (Some [(''scene'', [(1, sceneNode (Some 1)), (2, sceneNode (Some 2))])])"

text \<open>
  A project whose initial scene is scene 10; scene 10 holds element 70, whose target scene
  is scene 10. The nodes named \<open>After\<close> are these after \<^verbatim>\<open>changeDeepRecordId(10, 20)\<close>.
\<close>

definition exElement :: node where
  "exElement = Node None ''element'' (Some 1) [(''target_scene_id'', PNum 10)] None"

definition exScene :: node where
  "exScene = Node (Some ''Scene'') ''scene'' (Some 1) [] (Some [(''element'', [(70, exElement)])])"

definition exProject :: node where
  "exProject = Node None ''project'' None [(''initial_scene_id'', PNum 10)]
     (Some [(''scene'', [(10, exScene)])])"

definition exElementAfter :: node where
  "exElementAfter = Node None ''element'' (Some 1) [(''target_scene_id'', PNum 20)] None"

definition exSceneAfter :: node where
  "exSceneAfter = Node (Some ''Scene'') ''scene'' (Some 1) [] (Some [(''element'', [(70, exElementAfter)])])"

definition exProjectAfter :: node where
  "exProjectAfter = Node None ''project'' None [(''initial_scene_id'', PNum 20)]
     (Some [(''scene'', [(10, exSceneAfter)])])"




text \<open>
  \<open>exProject\<close> after \<^verbatim>\<open>duplicateRecord(scene, 10)\<close>: the clone of scene 10, stored under the
  generated id 1001.
\<close>

definition exSceneDuplicate :: node where
  "exSceneDuplicate =
     Node (Some ''Scene_1'') ''scene'' (Some 2) [] (Some [(''element'', [(70, exElement)])])"

definition exProjectDuplicated :: node where
  "exProjectDuplicated = Node None ''project'' None [(''initial_scene_id'', PNum 10)]
     (Some [(''scene'', [(10, exScene), (1001, exSceneDuplicate)])])"

text \<open>
  A scene that arrives with the order 99, and \<open>exProject\<close> after it has been added before
  the first scene.
\<close>

definition exNewScene :: node where
  "exNewScene = Node (Some ''Scene'') ''scene'' (Some 99) [] None"

definition exNewSceneAdded :: node where
  "exNewSceneAdded = Node (Some ''Scene_1'') ''scene'' (Some 0) [] None"

definition exProjectAdded :: node where
  "exProjectAdded = Node None ''project'' None [(''initial_scene_id'', PNum 10)]
     (Some [(''scene'', [(10, exScene), (1000, exNewSceneAdded)])])"

text \<open>
  An element that holds an empty record map of scenes, which \<open>regAll\<close> does not allow under
  an element, and the same element after \<open>exNewScene\<close> has been added to it.
\<close>

definition exHolder :: node where
  "exHolder = Node None ''element'' None [] (Some [(''scene'', [])])"

definition exNewSceneFirst :: node where
  "exNewSceneFirst = Node (Some ''Scene'') ''scene'' (Some 1) [] None"

definition exHolderAdded :: node where
  "exHolderAdded = Node None ''element'' None [] (Some [(''scene'', [(1000, exNewSceneFirst)])])"

text \<open>A project whose scene 10 holds the elements 70 and 71, with the orders 1 and 2.\<close>

definition exElementAt :: "rat \<Rightarrow> node" where
  "exElementAt ord = Node None ''element'' (Some ord) [] None"

definition exCopyScene :: node where
  "exCopyScene = Node (Some ''Scene'') ''scene'' (Some 1) []
     (Some [(''element'', [(70, exElementAt 1), (71, exElementAt 2)])])"

definition exCopyProject :: node where
  "exCopyProject = Node None ''project'' None [] (Some [(''scene'', [(10, exCopyScene)])])"

section \<open>Properties\<close>

lemma countUp_eq: "countUp i c = map (\<lambda>j. of_nat j + 1) [i..<i + c]"
proof (induction c arbitrary: i)
  case 0
  show ?case by simp
next
  case (Suc c)
  have "[i..<i + Suc c] = i # [Suc i..<Suc i + c]"
    by (simp add: upt_rec)
  with Suc show ?case by simp
qed

lemma stepDown_eq: "stepDown m c = map (\<lambda>j. m - (of_nat j + 1)) [0..<c]"
proof (induction c arbitrary: m)
  case 0
  show ?case by simp
next
  case (Suc c)
  have "map (\<lambda>j. m - (of_nat j + 1)) [0..<Suc c] = (m - 1) # map (\<lambda>j. m - (of_nat (Suc j) + 1)) [0..<c]"
    by (simp add: upt_rec[of 0] map_Suc_upt[symmetric] del: upt_Suc)
  also have "\<dots> = (m - 1) # stepDown (m - 1) c"
    by (simp add: Suc algebra_simps)
  finally show ?case by simp
qed

lemma stepUp_eq: "stepUp m c = map (\<lambda>j. m + (of_nat j + 1)) [0..<c]"
proof (induction c arbitrary: m)
  case 0
  show ?case by simp
next
  case (Suc c)
  have "map (\<lambda>j. m + (of_nat j + 1)) [0..<Suc c] = (m + 1) # map (\<lambda>j. m + (of_nat (Suc j) + 1)) [0..<c]"
    by (simp add: upt_rec[of 0] map_Suc_upt[symmetric] del: upt_Suc)
  also have "\<dots> = (m + 1) # stepUp (m + 1) c"
    by (simp add: Suc algebra_simps)
  finally show ?case by simp
qed

lemma segments_eq:
  "segments p n k (of_nat s) c = map (\<lambda>j. p + (n - p) / (of_nat k + 1) * (of_nat (s + j) + 1)) [0..<c]"
proof (induction c arbitrary: s)
  case 0
  show ?case by simp
next
  case (Suc c)
  have "map (\<lambda>j. p + (n - p) / (of_nat k + 1) * (of_nat (s + j) + 1)) [0..<Suc c]
      = (p + (n - p) / (of_nat k + 1) * (of_nat s + 1))
        # map (\<lambda>j. p + (n - p) / (of_nat k + 1) * (of_nat (Suc s + j) + 1)) [0..<c]"
    by (simp add: upt_rec[of 0] map_Suc_upt[symmetric] del: upt_Suc)
  also have "\<dots> = (p + (n - p) / (of_nat k + 1) * (of_nat s + 1)) # segments p n k (of_nat (Suc s)) c"
    by (simp only: Suc)
  finally show ?case by (simp add: add.commute)
qed




subsection \<open>JavaScript objects as association lists\<close>



lemma js_put_new_split:
  assumes "k \<notin> fst ` set m"
  obtains xs ys where "m = xs @ ys" "js_put k v m = xs @ (k, v) # ys"
proof (cases "is_array_index k")
  case True
  let ?P = "\<lambda>e. is_array_index (fst e) \<and> fst e < k"
  have "m = takeWhile ?P m @ dropWhile ?P m" by simp
  moreover have "js_put k v m = takeWhile ?P m @ (k, v) # dropWhile ?P m"
    using assms True by (simp add: js_put_def)
  ultimately show ?thesis using that by blast
next
  case False
  have "js_put k v m = m @ (k, v) # []" using assms False by (simp add: js_put_def)
  then show ?thesis using that[of m "[]"] by simp
qed


lemma map_of_insert_middle:
  "k \<notin> fst ` set xs \<Longrightarrow> map_of (xs @ (k, v) # ys) = (map_of (xs @ ys))(k \<mapsto> v)"
  by (induction xs) (auto simp: fun_eq_iff)

lemma map_of_js_put: "map_of (js_put k v m) = (map_of m)(k \<mapsto> v)"
proof (cases "k \<in> fst ` set m")
  case True
  then show ?thesis by (simp add: js_put_def update_conv')
next
  case False
  then obtain xs ys where s: "m = xs @ ys" "js_put k v m = xs @ (k, v) # ys"
    by (rule js_put_new_split)
  with False have "k \<notin> fst ` set xs" by auto
  then show ?thesis using map_of_insert_middle[of k xs v ys] s by simp
qed





subsection \<open>Writing a child back\<close>




lemma fold_Inl:
  "fold (\<lambda>e acc. case acc of Inl err \<Rightarrow> Inl err | Inr cur \<Rightarrow> F e cur) es (Inl err) = Inl err"
  by (induction es) simp_all


subsection \<open>Trees without a repeated key or id\<close>









lemma wf_json_unfold:
  "wf_json n \<longleftrightarrow> distinct (map fst (props n)) \<and>
     (case records n of None \<Rightarrow> True
      | Some r \<Rightarrow> distinct (map fst r) \<and>
          list_all (\<lambda>tm. distinct (map fst (snd tm)) \<and> list_all (\<lambda>e. wf_json (snd e)) (snd tm)) r)"
  by (cases n) simp



lemma with_props_sel [simp]:
  "name (with_props n v) = name n" "type (with_props n v) = type n" "order (with_props n v) = order n"
  "props (with_props n v) = v" "records (with_props n v) = records n"
  by (simp_all add: with_props_def)




subsection \<open>What changeDeepRecordId does to a tree\<close>




lemma with_order_sel [simp]:
  "name (with_order n v) = name n" "type (with_order n v) = type n" "order (with_order n v) = v"
  "props (with_order n v) = props n" "records (with_order n v) = records n"
  by (simp_all add: with_order_def)

lemma with_name_sel [simp]:
  "name (with_name n v) = v" "type (with_name n v) = type n" "order (with_name n v) = order n"
  "props (with_name n v) = props n" "records (with_name n v) = records n"
  by (simp_all add: with_name_def)

lemma with_records_sel [simp]:
  "name (with_records n v) = name n" "type (with_records n v) = type n" "order (with_records n v) = order n"
  "props (with_records n v) = props n" "records (with_records n v) = v"
  by (simp_all add: with_records_def)

lemma put_recordMapOfType_sel [simp]:
  "name (put_recordMapOfType n t rm) = name n" "type (put_recordMapOfType n t rm) = type n"
  "order (put_recordMapOfType n t rm) = order n" "props (put_recordMapOfType n t rm) = props n"
  by (simp_all add: put_recordMapOfType_def split: option.splits)

lemma put_recordMapOfType_records:
  "records (put_recordMapOfType n t rm) =
     (if ownRecordMap n t = None then records n else map_option (AList.update t rm) (records n))"
  by (simp add: put_recordMapOfType_def split: option.splits)

lemma update_record_sel [simp]:
  "name (update_record n t k f) = name n" "type (update_record n t k f) = type n"
  "order (update_record n t k f) = order n" "props (update_record n t k f) = props n"
  by (simp_all add: update_record_def)

lemma getRecordOfType_put:
  "getRecordOfType (put_recordMapOfType n t rm) t' k =
     (if ownRecordMap n t \<noteq> None \<and> t' = t then map_of rm k else getRecordOfType n t' k)"
  by (cases "records n")
    (auto simp: getRecordOfType_def put_recordMapOfType_def ownRecordMap_def update_conv'
      split: option.splits)

lemma getRecordMapOfType_put:
  "getRecordMapOfType (put_recordMapOfType n t rm) t' =
     (if ownRecordMap n t \<noteq> None \<and> t' = t then rm else getRecordMapOfType n t')"
  by (cases "records n")
    (auto simp: getRecordMapOfType_def put_recordMapOfType_def ownRecordMap_def update_conv'
      split: option.splits)

lemma getRecordOfType_map_of:
  "getRecordOfType n t k = map_of (getRecordMapOfType n t) k"
  by (simp add: getRecordOfType_def getRecordMapOfType_def split: option.splits)

lemma getRecordOfType_update_record:
  "getRecordOfType (update_record n t k f) t' k' =
     (if t' = t \<and> k' = k then map_option f (getRecordOfType n t k) else getRecordOfType n t' k')"
proof (cases "records n")
  case None
  then show ?thesis
    by (simp add: update_record_def getRecordOfType_put ownRecordMap_def) (simp add: getRecordOfType_def)
next
  case (Some r)
  show ?thesis
  proof (cases "ownRecordMap n t")
    case None
    then have "getRecordOfType n t k = None"
      by (simp add: getRecordOfType_def ownRecordMap_def split: option.splits)
    with None show ?thesis by (simp add: update_record_def getRecordOfType_put)
  next
    case (Some rm)
    then show ?thesis
      by (auto simp add: update_record_def getRecordMapOfType_put getRecordOfType_map_of map_of_map_entry
          split: option.splits)
  qed
qed

text \<open>Folding the recursive step keeps name, type, order and props of the node.\<close>

lemma changeDeepRecordId_fold_sel:
  assumes "fold (\<lambda>e acc. case acc of Inl err \<Rightarrow> Inl err
                 | Inr cur \<Rightarrow>
                     if \<not> known (type (snd (snd e))) then Inl UnknownRecordType
                     else (case f (snd (snd e)) of
                             Inl err \<Rightarrow> Inl err
                           | Inr v \<Rightarrow> Inr (update_record cur (fst (snd e)) (fst e) (\<lambda>_. v))))
              es (Inr cur) = Inr n'"
  shows "name n' = name cur \<and> type n' = type cur \<and> order n' = order cur \<and> props n' = props cur"
  using assms
proof (induction es arbitrary: cur)
  case Nil
  then show ?case by simp
next
  case (Cons e es)
  let ?step = "\<lambda>e acc. case acc of Inl err \<Rightarrow> Inl err
                 | Inr cur \<Rightarrow>
                     if \<not> known (type (snd (snd e))) then Inl UnknownRecordType
                     else (case f (snd (snd e)) of
                             Inl err \<Rightarrow> Inl err
                           | Inr v \<Rightarrow> Inr (update_record cur (fst (snd e)) (fst e) (\<lambda>_. v)))"
  from Cons.prems have f: "fold ?step es (?step e (Inr cur)) = Inr n'" by simp
  show ?case
  proof (cases "?step e (Inr cur)")
    case (Inl err)
    with f show ?thesis by (simp add: fold_Inl)
  next
    case (Inr cur')
    then have "name cur' = name cur \<and> type cur' = type cur \<and> order cur' = order cur \<and> props cur' = props cur"
      by (auto split: if_splits sum.splits)
    with Cons.IH[of cur'] f Inr show ?thesis by simp
  qed
qed

lemma changeDeepRecordId_to_sel:
  assumes "changeDeepRecordId_to reg rid newId n = Inr n'"
  shows "name n' = name n" "type n' = type n" "order n' = order n"
    "props n' = rewriteProps rid newId (props n)"
  using changeDeepRecordId_fold_sel[OF assms[unfolded changeDeepRecordId_to.simps[of reg rid newId n] Let_def]]
  by simp_all

lemma cycle_fold_sel:
  assumes "fold (\<lambda>key acc. case acc of Inl err \<Rightarrow> Inl err
                  | Inr (cur, g1) \<Rightarrow>
                      (case changeDeepRecordId reg g1 cur key None of
                         Inl err \<Rightarrow> Inl err
                       | Inr (cur', g2, newId) \<Rightarrow> Inr (cur', g2)))
               keys (Inr (n, g)) = Inr (n', g')"
  shows "name n' = name n \<and> type n' = type n \<and> order n' = order n"
  using assms
proof (induction keys arbitrary: n g)
  case Nil
  then show ?case by simp
next
  case (Cons key keys)
  let ?step = "\<lambda>key acc. case acc of Inl err \<Rightarrow> Inl err
                  | Inr (cur, g1) \<Rightarrow>
                      (case changeDeepRecordId reg g1 cur key None of
                         Inl err \<Rightarrow> Inl err
                       | Inr (cur', g2, newId) \<Rightarrow> Inr (cur', g2))"
  have inl: "fold ?step ks (Inl err) = Inl err" for ks err
    by (induction ks) simp_all
  from Cons.prems have f: "fold ?step keys (?step key (Inr (n, g))) = Inr (n', g')" by simp
  show ?case
  proof (cases "?step key (Inr (n, g))")
    case (Inl err)
    with f show ?thesis by (simp add: inl)
  next
    case (Inr p)
    obtain cur' g2 where p: "p = (cur', g2)" by (cases p)
    from Inr have "name cur' = name n \<and> type cur' = type n \<and> order cur' = order n"
      by (auto simp: p changeDeepRecordId_def Let_def split: sum.splits prod.splits dest: changeDeepRecordId_to_sel)
    with Cons.IH[of cur' g2] f Inr p show ?thesis by simp
  qed
qed

lemma cycleAllSubRecordIds_sel:
  assumes "cycleAllSubRecordIds reg g n = Inr (n', g')"
  shows "name n' = name n" "type n' = type n" "order n' = order n"
  using assms cycle_fold_sel[of reg _ n g n' g']
  by (auto simp: cycleAllSubRecordIds_def split: sum.splits)

subsection \<open>The steps of addRecord\<close>

lemma getNewOrders_length:
  "getNewOrders sortedRecords k position = Inr orders \<Longrightarrow> length orders = k"
  by (auto simp add: getNewOrders_def countUp_eq stepDown_eq stepUp_eq segments_eq[of _ _ k 0 k, simplified]
        Let_def split: if_splits option.splits)

lemma getNewOrders_one:
  assumes "getNewOrders sortedRecords 1 position = Inr orders"
  obtains x where "orders = [x]"
proof -
  from getNewOrders_length[OF assms] have "length orders = Suc 0" by simp
  then show ?thesis using that by (cases orders) auto
qed

lemma addRecord_SomeE:
  assumes "addRecord reg g n record position rid dc = Inr (n', g', Some (k, rec'))"
  obtains n1 n2 recordsArray x record2 g1 renamed where
    "initializeRecordMap reg n (type record) = (True, n1)"
    "getSortedRecordsOfType n1 (type record) = (n2, recordsArray)"
    "getNewOrders recordsArray 1 position = Inr [x]"
    "(if \<not> dc then cycleAllSubRecordIds reg g (with_order record (Some x))
      else Inr (with_order record (Some x), g)) = Inr (record2, g1)"
    "k = (case rid of None \<Rightarrow> generateIdV2 reg g1 | Some i \<Rightarrow> i)"
    "g' = (case rid of None \<Rightarrow> Suc g1 | Some i \<Rightarrow> g1)"
    "changeRecordName reg
       (put_recordMapOfType n2 (type record) (js_put k record2 (getRecordMapOfType n2 (type record))))
       (type record) k (name record2) = Inr (n', renamed)"
    "rec' = (case renamed of None \<Rightarrow> record2 | Some r3 \<Rightarrow> r3)"
    "\<not> inheritedMember n2 (type record)"
proof -
  obtain ok n1 where i: "initializeRecordMap reg n (type record) = (ok, n1)"
    by (cases "initializeRecordMap reg n (type record)")
  obtain n2 recordsArray where s: "getSortedRecordsOfType n1 (type record) = (n2, recordsArray)"
    by (cases "getSortedRecordsOfType n1 (type record)")
  from assms i have ok: "ok" by (auto simp: addRecord_def Let_def split: if_splits)
  from assms i s ok obtain orders where o: "getNewOrders recordsArray 1 position = Inr orders"
    by (cases "getNewOrders recordsArray 1 position") (auto simp: addRecord_def Let_def)
  then obtain x where x: "orders = [x]" by (rule getNewOrders_one)
  let ?c = "if \<not> dc then cycleAllSubRecordIds reg g (with_order record (Some x))
      else Inr (with_order record (Some x), g)"
  from assms i s ok o x obtain record2 g1 where c: "?c = Inr (record2, g1)"
    by (cases ?c) (auto simp: addRecord_def Let_def split: if_splits)
  let ?k = "case rid of None \<Rightarrow> generateIdV2 reg g1 | Some i \<Rightarrow> i"
  let ?n3 = "put_recordMapOfType n2 (type record) (js_put ?k record2 (getRecordMapOfType n2 (type record)))"
  from assms i s ok o x c obtain n4 renamed where
    r: "changeRecordName reg ?n3 (type record) ?k (name record2) = Inr (n4, renamed)"
    by (cases "changeRecordName reg ?n3 (type record) ?k (name record2)")
      (auto simp: addRecord_def Let_def split: if_splits option.splits)
  from assms i s ok o x c r have e:
    "n' = n4" "k = ?k" "g' = (case rid of None \<Rightarrow> Suc g1 | Some i \<Rightarrow> g1)"
    "rec' = (case renamed of None \<Rightarrow> record2 | Some r3 \<Rightarrow> r3)"
    "\<not> inheritedMember n2 (type record)"
    by (auto simp: addRecord_def Let_def split: if_splits option.splits)
  show ?thesis
    using i s ok o x c r e by (intro that[of n1 n2 recordsArray x record2 g1 renamed]) simp_all
qed

subsection \<open>Rounding to a double\<close>




















lemma length_countUp_double [simp]: "length (countUp_double i c) = c"
  by (induction c arbitrary: i) simp_all

lemma length_stepDown_double [simp]: "length (stepDown_double x c) = c"
  by (induction c arbitrary: x) simp_all

lemma length_stepUp_double [simp]: "length (stepUp_double x c) = c"
  by (induction c arbitrary: x) simp_all

lemma length_segments_double [simp]: "length (segments_double p n k s c) = c"
  by (induction c arbitrary: s) simp_all


lemmas double_evals = dadd.simps dmul.simps ddiv.simps dsub_def roundToDouble_def exponentOf_def
  pow2_def roundHalfEven_def bitLength.simps Let_def






subsection \<open>C6: the order allocator\<close>






subsection \<open>Evaluating the model on the example trees\<close>

lemmas node_evals = getRecordMapOfType_def getRecordOfType_def put_recordMapOfType_def ownRecordMap_def
  with_records_def
  with_order_def with_props_def with_name_def update_record_def orderKey_def

subsection \<open>C5: the backfill of missing orders\<close>

text \<open>
  C5 says that \<^verbatim>\<open>getSortedRecordEntriesOfType\<close> gives every sibling without an order a value
  above the maximum order of all siblings of the type. The scan for the maximum in
  \<^verbatim>\<open>ensureOrderKeyPresentOfType\<close> leaves its loop at the first sibling without an order, so
  the orders of the siblings after it are never looked at. In \<open>exLegacy\<close> scene 1 has no order
  and scene 2 has order 5: scene 1 is given order 1, below the order of scene 2, where the
  claim gives it 6.
\<close>

theorem backfill_below_existing_order:
  "getSortedRecordEntriesOfType exLegacy ''scene'' =
     (Node None ''project'' None []
        (Some [(''scene'', [(1, sceneNode (Some 1)), (2, sceneNode (Some 5))])]),
      [(1, sceneNode (Some 1)), (2, sceneNode (Some 5))])"
  by (simp add: getSortedRecordEntriesOfType_def ensureOrderKeyPresentOfType_def exLegacy_def
      sceneNode_def node_evals)

subsection \<open>C3: reordering two scenes\<close>

text \<open>
  C3 is the scenario of a project with scene 1 (order 1) and scene 2 (order 2), and the call
  \<^verbatim>\<open>reorderRecords(scene, [2], 0)\<close>: scene 2 should end before scene 1 and the order of
  scene 1, which is not among the ids, should stay. \<^verbatim>\<open>reorderRecords\<close> uses of \<^verbatim>\<open>ids\<close> only its
  length: the one new order, \<open>0\<close>, goes to the first sorted record, which is scene 1, and the
  second sorted record, scene 2, is given \<^verbatim>\<open>allOrders[1]\<close>, which is \<^verbatim>\<open>undefined\<close>. The next
  sorted read backfills scene 2 with order 1, and the sorted ids are \<open>[1, 2]\<close> as before.
\<close>

theorem reorderRecords_scenario:
  "reorderRecords exTwoScenes ''scene'' [2] 0 =
     Inr (Node None ''project'' None []
            (Some [(''scene'', [(1, sceneNode (Some 0)), (2, sceneNode None)])]))
   \<and> snd (getSortedRecordIdsOfType
            (Node None ''project'' None []
               (Some [(''scene'', [(1, sceneNode (Some 0)), (2, sceneNode None)])])) ''scene'')
       = [1, 2]"
  by (simp add: reorderRecords_def getSortedRecordIdsOfType_def getSortedRecordEntriesOfType_def
      ensureOrderKeyPresentOfType_def getNewOrders_def exTwoScenes_def sceneNode_def node_evals)

subsection \<open>C2 and C7: changeDeepRecordId on an example\<close>

lemma regAll_simps [simp]:
  "isRecordType regAll t = (t \<in> {''project'', ''scene'', ''element'', ''variable''})"
  "isTypeChildOf regAll p t = ((p, t) \<in> {(''project'', ''scene''), (''project'', ''variable''),
                                                 (''scene'', ''element'')})"
  "defaultName regAll t = (if t = ''scene'' then Some ''Scene'' else None)"
  "getSafeAndUniqueRecordName regAll nm taken = nm @ ''_'' @ showNat (length taken)"
  "generateIdV2 regAll k = 1000 + k"
  by (simp_all add: regAll_def)

lemmas map_evals = getRecordMap_def getRecordTypes_def js_assign_def js_put_def is_array_index_def
  rewriteProps_def

lemma exElement_changed: "changeDeepRecordId_to regAll 10 20 exElement = Inr exElementAfter"
  by (subst changeDeepRecordId_to.simps)
    (simp add: exElement_def exElementAfter_def map_evals node_evals)

lemma exScene_changed: "changeDeepRecordId_to regAll 10 20 exScene = Inr exSceneAfter"
proof -
  have "getRecordMap (with_props exScene (rewriteProps 10 20 (props exScene))) = [(70, ''element'', exElement)]"
    by (simp add: exScene_def map_evals node_evals)
  then show ?thesis
    by (subst changeDeepRecordId_to.simps)
      (simp add: exElement_changed, simp add: exScene_def exSceneAfter_def exElement_def node_evals rewriteProps_def)
qed

lemma exProject_changed: "changeDeepRecordId_to regAll 10 20 exProject = Inr exProjectAfter"
proof -
  have "getRecordMap (with_props exProject (rewriteProps 10 20 (props exProject))) = [(10, ''scene'', exScene)]"
    by (simp add: exProject_def map_evals node_evals)
  then show ?thesis
    by (subst changeDeepRecordId_to.simps)
      (simp add: exScene_changed, simp add: exProject_def exProjectAfter_def exScene_def node_evals rewriteProps_def)
qed

text \<open>
  C2 says that \<^verbatim>\<open>changeDeepRecordId(id, newId)\<close> moves the entry of a direct child from
  \<open>id\<close> to \<open>newId\<close> in the record map that owns it. The method moves the entry in the
  object that \<^verbatim>\<open>getRecordMap()\<close> returns, which is a copy: the record map of the tree keeps
  the child under the old id. In \<open>exProject\<close>, scene 10 is still stored under 10 after
  \<^verbatim>\<open>changeDeepRecordId(10, 20)\<close> and nothing is stored under 20, while the property values
  that were 10 have become 20.
\<close>

theorem changeDeepRecordId_keeps_map_entry:
  "changeDeepRecordId regAll 0 exProject 10 (Some 20) = Inr (exProjectAfter, 0, 20)
   \<and> getRecordOfType exProjectAfter ''scene'' 10 = Some exSceneAfter
   \<and> getRecordOfType exProjectAfter ''scene'' 20 = None"
  by (simp add: changeDeepRecordId_def exProject_changed) (simp add: exProjectAfter_def getRecordOfType_def)

subsection \<open>C7: references are rewritten at every depth\<close>


lemma rewriteTree_sel [simp]:
  "props (rewriteTree rid newId n) = rewriteProps rid newId (props n)"
  "records (rewriteTree rid newId n) =
     map_option (map (\<lambda>tm. (fst tm, map (\<lambda>e. (fst e, rewriteTree rid newId (snd e))) (snd tm)))) (records n)"
  by (cases n; simp)+





lemma exProject_wf: "wf_json exProject" "distinct (all_ids exProject)"
  by (simp_all add: exProject_def exScene_def exElement_def)






subsection \<open>What addRecord stores\<close>

lemma initializeRecordMap_True:
  assumes "initializeRecordMap reg n t = (True, n1)"
  shows "isRecordType reg t"
    "(\<exists>rs rm. records n1 = Some rs \<and> map_of rs t = Some rm) \<or> inheritedMember n1 t"
    "type n1 = type n" "getRecordMapOfType n1 t = getRecordMapOfType n t"
  using assms
  by (auto simp: initializeRecordMap_def recordsMember_def ownRecordMap_def getRecordMapOfType_def
      update_conv' split: if_splits option.splits)

lemma inheritedMember_ensureOrder:
  "inheritedMember n t \<Longrightarrow> ensureOrderKeyPresentOfType n t = n"
  by (simp add: inheritedMember_def ensureOrderKeyPresentOfType_def put_recordMapOfType_def
      Let_def split: prod.splits)

lemma initializeRecordMap_False:
  "initializeRecordMap reg n t = (False, n1) \<Longrightarrow> n1 = n"
  by (auto simp: initializeRecordMap_def split: if_splits option.splits)

lemma ensureOrderKeyPresentOfType_records:
  assumes "records n = Some rs" "map_of rs t = Some rm"
  shows "\<exists>rs' rm'. records (ensureOrderKeyPresentOfType n t) = Some rs' \<and> map_of rs' t = Some rm'"
    "type (ensureOrderKeyPresentOfType n t) = type n"
  using assms
  by (auto simp: ensureOrderKeyPresentOfType_def Let_def update_conv' put_recordMapOfType_records
      ownRecordMap_def split: prod.splits)

lemma getSortedRecordsOfType_fst:
  "fst (getSortedRecordsOfType n t) = ensureOrderKeyPresentOfType n t"
  by (simp add: getSortedRecordsOfType_def getSortedRecordEntriesOfType_def Let_def)

lemma scanMaxOrder_found: "fst (scanMaxOrder vs mx) \<Longrightarrow> vs \<noteq> []"
  by (cases vs) auto

lemma getRecordMapOfType_ensure:
  "getRecordMapOfType (ensureOrderKeyPresentOfType n t) t =
     (let rm = getRecordMapOfType n t; r = scanMaxOrder (map snd rm) 0
      in if fst r then fillOrders rm (snd r) else rm)"
proof (cases "fst (scanMaxOrder (map snd (getRecordMapOfType n t)) 0)")
  case True
  from scanMaxOrder_found[OF this] have "ownRecordMap n t \<noteq> None"
    by (cases "records n") (auto simp: getRecordMapOfType_def ownRecordMap_def split: option.splits)
  with True show ?thesis
    by (auto simp add: ensureOrderKeyPresentOfType_def Let_def getRecordMapOfType_put split: prod.splits)
next
  case False
  then show ?thesis
    by (auto simp add: ensureOrderKeyPresentOfType_def Let_def split: prod.splits)
qed

lemma getSortedRecordsOfType_snd_cong:
  assumes "getRecordMapOfType m t = getRecordMapOfType n t"
  shows "snd (getSortedRecordsOfType m t) = snd (getSortedRecordsOfType n t)"
  by (simp add: getSortedRecordsOfType_def getSortedRecordEntriesOfType_def
      getRecordMapOfType_ensure assms Let_def)

lemma changeRecordName_stored:
  assumes "changeRecordName reg n t k nm = Inr (n', renamed)" "getRecordOfType n t k = Some rec"
  shows "getRecordOfType n' t k = Some (case renamed of None \<Rightarrow> rec | Some r3 \<Rightarrow> r3)"
    "type (case renamed of None \<Rightarrow> rec | Some r3 \<Rightarrow> r3) = type rec"
    "order (case renamed of None \<Rightarrow> rec | Some r3 \<Rightarrow> r3) = order rec"
    "type n' = type n" "records n' \<noteq> None"
proof -
  have rn: "records n \<noteq> None"
    using assms(2) by (auto simp: getRecordOfType_def split: option.splits)
  have ur: "records (update_record n t k f) \<noteq> None" for f
    using rn by (auto simp: update_record_def put_recordMapOfType_records)
  show "getRecordOfType n' t k = Some (case renamed of None \<Rightarrow> rec | Some r3 \<Rightarrow> r3)"
    "type (case renamed of None \<Rightarrow> rec | Some r3 \<Rightarrow> r3) = type rec"
    "order (case renamed of None \<Rightarrow> rec | Some r3 \<Rightarrow> r3) = order rec"
    "type n' = type n" "records n' \<noteq> None"
    using assms rn ur
    by (auto simp: changeRecordName_def Let_def getRecordOfType_update_record
        split: if_splits option.splits)
qed

lemma addRecord_stored:
  assumes "addRecord reg g n record position rid dc = Inr (n', g', Some (k, rec'))"
  shows "getRecordOfType n' (type record) k = Some rec'"
    and "type rec' = type record"
    and "\<exists>x. getNewOrders (snd (getSortedRecordsOfType n (type record))) 1 position = Inr [x]
            \<and> order rec' = Some x"
    and "type n' = type n" and "records n' \<noteq> None" and "isRecordType reg (type record)"
proof -
  from assms obtain n1 n2 recordsArray x record2 g1 renamed where
    i: "initializeRecordMap reg n (type record) = (True, n1)" and
    s: "getSortedRecordsOfType n1 (type record) = (n2, recordsArray)" and
    o: "getNewOrders recordsArray 1 position = Inr [x]" and
    c: "(if \<not> dc then cycleAllSubRecordIds reg g (with_order record (Some x))
         else Inr (with_order record (Some x), g)) = Inr (record2, g1)" and
    r: "changeRecordName reg
          (put_recordMapOfType n2 (type record) (js_put k record2 (getRecordMapOfType n2 (type record))))
          (type record) k (name record2) = Inr (n', renamed)" and
    e: "rec' = (case renamed of None \<Rightarrow> record2 | Some r3 \<Rightarrow> r3)" and
    m: "\<not> inheritedMember n2 (type record)"
    by (rule addRecord_SomeE)
  note i' = initializeRecordMap_True[OF i]
  have n2: "n2 = ensureOrderKeyPresentOfType n1 (type record)"
    using s getSortedRecordsOfType_fst[of n1 "type record"] by simp
  have "\<not> inheritedMember n1 (type record)"
    using m n2 inheritedMember_ensureOrder[of n1 "type record"] by auto
  with i'(2) obtain rs rm where rs: "records n1 = Some rs" "map_of rs (type record) = Some rm"
    by blast
  from ensureOrderKeyPresentOfType_records[OF rs] n2
  have rn2: "ownRecordMap n2 (type record) \<noteq> None" "type n2 = type n1"
    by (auto simp: ownRecordMap_def)
  have r2: "type record2 = type record" "order record2 = Some x"
    using c by (auto split: if_splits dest: cycleAllSubRecordIds_sel)
  let ?n3 = "put_recordMapOfType n2 (type record) (js_put k record2 (getRecordMapOfType n2 (type record)))"
  have g3: "getRecordOfType ?n3 (type record) k = Some record2"
    using rn2 by (simp add: getRecordOfType_put map_of_js_put)
  note st = changeRecordName_stored[OF r g3]
  show "getRecordOfType n' (type record) k = Some rec'" using st(1) e by simp
  show "type rec' = type record" using st(2) e r2 by simp
  have "snd (getSortedRecordsOfType n (type record)) = recordsArray"
    using getSortedRecordsOfType_snd_cong[OF i'(4)] s by simp
  then show "\<exists>x. getNewOrders (snd (getSortedRecordsOfType n (type record))) 1 position = Inr [x]
            \<and> order rec' = Some x"
    using o st(3) e r2 by auto
  show "type n' = type n" using st(4) rn2 i'(3) by simp
  show "records n' \<noteq> None" by (rule st(5))
  show "isRecordType reg (type record)" by (rule i'(1))
qed

subsection \<open>C10: addRecord overwrites the order of the incoming record\<close>

text \<open>
  C10. Whenever \<^verbatim>\<open>addRecord\<close> returns \<^verbatim>\<open>{id, record}\<close>, the record it returns and stores under
  \<open>id\<close> has as its order the one value that \<^verbatim>\<open>getNewOrders\<close> computes from the sorted siblings
  of its type and the requested position, whatever order the incoming record carried.
\<close>

theorem addRecord_overwrites_order:
  assumes "addRecord reg g n record position rid dontCycleSubRecordIds = Inr (n', g', Some (k, rec'))"
  shows "\<exists>x. getNewOrders (snd (getSortedRecordsOfType n (type record))) 1 position = Inr [x]
            \<and> order rec' = Some x
            \<and> getRecordOfType n' (type record) k = Some rec'"
  using addRecord_stored(1,3)[OF assms] by blast

lemma exNewScene_cycled:
  "cycleAllSubRecordIds regAll 0 (with_order exNewScene (Some 0)) = Inr (with_order exNewScene (Some 0), 0)"
proof -
  have "getDeepRecordMap regAll (with_order exNewScene (Some 0)) = Inr []"
    by (subst getDeepRecordMap.simps) (simp add: exNewScene_def map_evals node_evals)
  then show ?thesis by (simp add: cycleAllSubRecordIds_def)
qed

lemma exProject_sorted_scenes: "getSortedRecordsOfType exProject ''scene'' = (exProject, [exScene])"
  by (simp add: getSortedRecordsOfType_def getSortedRecordEntriesOfType_def
      ensureOrderKeyPresentOfType_def exProject_def exScene_def node_evals)

lemma showNat_1: "showNat (Suc 0) = ''1''"
  by (subst showNat.simps) (simp add: digitChar_def)

lemma exProject_addRecord:
  "addRecord regAll 0 exProject exNewScene (Some 0) None False
     = Inr (exProjectAdded, 1, Some (1000, exNewSceneAdded))"
proof -
  have i: "initializeRecordMap regAll exProject ''scene'' = (True, exProject)"
    by (simp add: initializeRecordMap_def recordsMember_def inheritedMember_def ownRecordMap_def exProject_def)
  have o: "getNewOrders [exScene] (Suc 0) (Some 0) = Inr [0]"
    by (simp add: getNewOrders_def exScene_def orderKey_def)
  have t: "type exNewScene = ''scene''" by (simp add: exNewScene_def)
  have r: "changeRecordName regAll
             (put_recordMapOfType exProject ''scene''
                (js_put 1000 (with_order exNewScene (Some 0)) (getRecordMapOfType exProject ''scene'')))
             ''scene'' 1000 (name exNewScene)
           = Inr (exProjectAdded, Some exNewSceneAdded)"
    by (simp add: changeRecordName_def exProject_def exProjectAdded_def exNewScene_def exNewSceneAdded_def
        exScene_def js_put_def is_array_index_def node_evals List.map_filter_def showNat_1 Let_def)
  have m: "\<not> inheritedMember exProject ''scene''"
    by (simp add: inheritedMember_def ownRecordMap_def exProject_def)
  show ?thesis
    unfolding addRecord_def t
    by (simp add: i exProject_sorted_scenes o exNewScene_cycled m r Let_def)
qed

theorem addRecord_overwrites_order_witness:
  "addRecord regAll 0 exProject exNewScene (Some 0) None False
     = Inr (exProjectAdded, 1, Some (1000, exNewSceneAdded))
   \<and> order exNewScene = Some 99
   \<and> (\<exists>x. getNewOrders (snd (getSortedRecordsOfType exProject (type exNewScene))) 1 (Some 0) = Inr [x]
            \<and> order exNewSceneAdded = Some x
            \<and> getRecordOfType exProjectAdded (type exNewScene) 1000 = Some exNewSceneAdded)"
  using addRecord_overwrites_order[OF exProject_addRecord] exProject_addRecord
  by (simp add: exNewScene_def)

subsection \<open>C9: a child type that the registry does not allow\<close>

text \<open>
  C9 says that \<^verbatim>\<open>addRecord\<close> of a record whose type the registry does not declare legal under
  the parent's type is a no-op that returns \<^verbatim>\<open>undefined\<close>. \<^verbatim>\<open>initializeRecordMap\<close> asks
  \<^verbatim>\<open>isTypeChildOf\<close> only when the parent has no record map of the type yet. \<open>exHolder\<close> is an
  element that already holds a record map of scenes, empty here; the registry \<open>regAll\<close> does
  not allow a scene under an element, and the scene is added all the same.
\<close>

theorem addRecord_disallowed_type_counterexample:
  "isTypeChildOf regAll (type exHolder) (type exNewScene) = False
   \<and> addRecord regAll 0 exHolder exNewScene None None False
       = Inr (exHolderAdded, 1, Some (1000, exNewSceneFirst))"
proof -
  have i: "initializeRecordMap regAll exHolder ''scene'' = (True, exHolder)"
    by (simp add: initializeRecordMap_def recordsMember_def inheritedMember_def ownRecordMap_def exHolder_def)
  have s: "getSortedRecordsOfType exHolder ''scene'' = (exHolder, [])"
    by (simp add: getSortedRecordsOfType_def getSortedRecordEntriesOfType_def
      ensureOrderKeyPresentOfType_def exHolder_def node_evals)
  have o: "getNewOrders [] (Suc 0) None = Inr [1]"
    by (simp add: getNewOrders_def)
  have c: "cycleAllSubRecordIds regAll 0 (with_order exNewScene (Some 1)) = Inr (with_order exNewScene (Some 1), 0)"
  proof -
    have "getDeepRecordMap regAll (with_order exNewScene (Some 1)) = Inr []"
      by (subst getDeepRecordMap.simps) (simp add: exNewScene_def map_evals node_evals)
    then show ?thesis by (simp add: cycleAllSubRecordIds_def)
  qed
  have t: "type exNewScene = ''scene''" by (simp add: exNewScene_def)
  have r: "changeRecordName regAll
             (put_recordMapOfType exHolder ''scene''
                (js_put 1000 (with_order exNewScene (Some 1)) (getRecordMapOfType exHolder ''scene'')))
             ''scene'' 1000 (name exNewScene)
           = Inr (exHolderAdded, Some exNewSceneFirst)"
    by (simp add: changeRecordName_def exHolder_def exHolderAdded_def exNewScene_def exNewSceneFirst_def
        js_put_def is_array_index_def node_evals List.map_filter_def Let_def)
  have m: "\<not> inheritedMember exHolder ''scene''"
    by (simp add: inheritedMember_def ownRecordMap_def exHolder_def)
  have "addRecord regAll 0 exHolder exNewScene None None False
       = Inr (exHolderAdded, 1, Some (1000, exNewSceneFirst))"
    unfolding addRecord_def t by (simp add: i s o c m r Let_def)
  then show ?thesis by (simp add: exHolder_def exNewScene_def)
qed

text \<open>
  C9, amended. Let the registry not declare the record's type legal under the parent's type.
  When the read \<^verbatim>\<open>records[type]\<close> on the parent gives \<^verbatim>\<open>undefined\<close> (the parent holds no record
  map of the type, and the type's name is not that of a member inherited from
  \<^verbatim>\<open>Object.prototype\<close>), or when the type is not a known record type at all, \<^verbatim>\<open>addRecord\<close> returns
  \<^verbatim>\<open>undefined\<close> without throwing and leaves the parent as it was.
\<close>

theorem addRecord_rejects_disallowed_type:
  assumes "\<not> isTypeChildOf reg (type n) (type record)"
    and "\<not> recordsMember n (type record) \<or> \<not> isRecordType reg (type record)"
  shows "addRecord reg g n record position rid dontCycleSubRecordIds = Inr (n, g, None)"
  using assms by (auto simp: addRecord_def initializeRecordMap_def Let_def)

theorem addRecord_rejects_disallowed_type_witness:
  "\<not> isTypeChildOf regAll (type exProject) (type exElement)
   \<and> \<not> recordsMember exProject (type exElement)
   \<and> addRecord regAll 0 exProject exElement (Some 0) None False = Inr (exProject, 0, None)"
proof -
  have a: "\<not> isTypeChildOf regAll (type exProject) (type exElement)"
    by (simp add: exProject_def exElement_def)
  have b: "\<not> recordsMember exProject (type exElement)"
    by (simp add: recordsMember_def inheritedMember_def objectPrototypeMembers_def ownRecordMap_def
        exProject_def exElement_def)
  from addRecord_rejects_disallowed_type[OF a disjI1[OF b]] a b show ?thesis by simp
qed

subsection \<open>Printing and reading an id\<close>

lemma digitVal_digitChar: "d < 10 \<Longrightarrow> digitVal (digitChar d) = Some d"
proof -
  assume "d < 10"
  then have "d \<in> {0, 1, 2, 3, 4, 5, 6, 7, 8, 9}" by auto
  then show ?thesis by (auto simp: digitVal_def digitChar_def)
qed

lemma digitChar_not_sep:
  "d < 10 \<Longrightarrow> digitChar d \<noteq> CHR '':'' \<and> digitChar d \<noteq> CHR ''|'' \<and> digitChar d \<noteq> CHR ''!''"
proof -
  assume "d < 10"
  then have "d \<in> {0, 1, 2, 3, 4, 5, 6, 7, 8, 9}" by auto
  then show ?thesis by (auto simp: digitChar_def)
qed

lemma parseDigits_append:
  "parseDigits (xs @ ys) acc = (case parseDigits xs acc of None \<Rightarrow> None | Some a \<Rightarrow> parseDigits ys a)"
  by (induction xs arbitrary: acc) (auto split: option.splits)

lemma parseDigits_showNat: "parseDigits (showNat n) 0 = Some n"
proof (induction n rule: showNat.induct)
  case (1 n)
  show ?case
  proof (cases "n < 10")
    case True
    then show ?thesis by (subst showNat.simps) (simp add: digitVal_digitChar)
  next
    case False
    have "n mod 10 < 10" by simp
    then have "digitVal (digitChar (n mod 10)) = Some (n mod 10)" by (rule digitVal_digitChar)
    with False 1 show ?thesis
      by (subst showNat.simps) (simp add: parseDigits_append)
  qed
qed

lemma showNat_no_sep:
  "CHR '':'' \<notin> set (showNat n) \<and> CHR ''|'' \<notin> set (showNat n) \<and> CHR ''!'' \<notin> set (showNat n)"
proof (induction n rule: showNat.induct)
  case (1 n)
  show ?case
  proof (cases "n < 10")
    case True
    then show ?thesis using digitChar_not_sep[of n] by (subst (1 2 3) showNat.simps) auto
  next
    case False
    have "n mod 10 < 10" by simp
    from digitChar_not_sep[OF this] False 1 show ?thesis
      by (subst (1 2 3) showNat.simps) auto
  qed
qed

lemma js_split_none: "c \<notin> set s \<Longrightarrow> js_split c s = [s]"
  by (induction s) auto

lemma js_split_once:
  "c \<notin> set s \<Longrightarrow> c \<notin> set s' \<Longrightarrow> js_split c (s @ c # s') = [s, s']"
  by (induction s) (auto simp: js_split_none)

lemma stripProperty_none: "CHR ''!'' \<notin> set s \<Longrightarrow> stripProperty s = s"
proof -
  assume a: "CHR ''!'' \<notin> set s"
  then have t: "takeWhile (\<lambda>c. c \<noteq> CHR ''!'') s = s" by (intro takeWhile_eq_all_conv[THEN iffD2]) auto
  have d: "dropWhile (\<lambda>c. c \<noteq> CHR ''!'') s = []" using a by auto
  show ?thesis unfolding stripProperty_def t d by simp
qed

subsection \<open>C8: the address of a freshly added record resolves to it\<close>

text \<open>
  C8. Let \<^verbatim>\<open>addRecord\<close> on a factory return \<^verbatim>\<open>{id, record}\<close>. Then \<^verbatim>\<open>getAddress\<close> for the record's
  type and that id is \<^verbatim>\<open>type:id\<close>, and \<^verbatim>\<open>getDeepRecord\<close> of this string on the same factory
  returns the record. The factory exists, so its node has a known record type; the names of
  the record types (an enumeration of the module \<^verbatim>\<open>RecordTypes\<close>) are taken to be non-empty and
  free of the separators \<^verbatim>\<open>!\<close>, \<^verbatim>\<open>|\<close> and \<^verbatim>\<open>:\<close> of the address format.
\<close>

theorem getAddress_getDeepRecord_roundtrip:
  assumes "addRecord reg g n record position rid dontCycleSubRecordIds = Inr (n', g', Some (k, rec'))"
    and "isRecordType reg (type n)"
    and "type record \<noteq> []"
    and "CHR ''!'' \<notin> set (type record)" "CHR ''|'' \<notin> set (type record)" "CHR '':'' \<notin> set (type record)"
  shows "getAddress n' k (Some (type rec')) None None None = type record @ '':'' @ showNat k
       \<and> getDeepRecord reg n' (Addr (getAddress n' k (Some (type rec')) None None None)) = Inr (Some rec')"
proof -
  note st = addRecord_stored[OF assms(1)]
  let ?addr = "type record @ '':'' @ showNat k"
  have a: "getAddress n' k (Some (type rec')) None None None = ?addr"
    using st(1,2) assms(3) by (simp add: getAddress_def truthy_def)
  have ns: "CHR ''!'' \<notin> set ?addr" "CHR ''|'' \<notin> set ?addr"
    using assms(4,5) showNat_no_sep[of k] by auto
  have sp: "js_split (CHR '':'') (type record @ CHR '':'' # showNat k) = [type record, showNat k]"
    using js_split_once[of "CHR '':''" "type record" "showNat k"] assms(6) showNat_no_sep[of k] by simp
  have rs: "resolveSegments reg [?addr] n' n' 0 = Inr (Some (RAndP k rec' n'))"
    using st(1,4) assms(2) by (simp add: sp js_Number_def parseDigits_showNat Let_def)
  have "getRecordAndParentWithAddress reg n' ?addr = Inr (Some (RAndP k rec' n'))"
    unfolding getRecordAndParentWithAddress_def stripProperty_none[OF ns(1)] js_split_none[OF ns(2)]
      Let_def rs[symmetric]
    using st(5) by (auto simp del: resolveSegments.simps)
  then have "getDeepRecord reg n' (Addr ?addr) = Inr (Some rec')"
    by (simp add: getDeepRecord_def)
  then show ?thesis unfolding a by simp
qed

lemma showNat_1000: "showNat 1000 = ''1000''"
  by (simp add: showNat.simps digitChar_def)

theorem getAddress_getDeepRecord_roundtrip_witness:
  "addRecord regAll 0 exProject exNewScene (Some 0) None False
     = Inr (exProjectAdded, 1, Some (1000, exNewSceneAdded))
   \<and> isRecordType regAll (type exProject)
   \<and> type exNewScene = ''scene''
   \<and> getAddress exProjectAdded 1000 (Some (type exNewSceneAdded)) None None None = ''scene:1000''
   \<and> getDeepRecord regAll exProjectAdded (Addr ''scene:1000'') = Inr (Some exNewSceneAdded)"
proof -
  have b: "isRecordType regAll (type exProject)" by (simp add: exProject_def)
  have t: "type exNewScene = ''scene''" by (simp add: exNewScene_def)
  have h: "type exNewScene \<noteq> []" "CHR ''!'' \<notin> set (type exNewScene)"
    "CHR ''|'' \<notin> set (type exNewScene)" "CHR '':'' \<notin> set (type exNewScene)"
    by (simp_all add: t)
  note r = getAddress_getDeepRecord_roundtrip[OF exProject_addRecord b h]
  have x: "getAddress exProjectAdded 1000 (Some (type exNewSceneAdded)) None None None = ''scene:1000''"
    using r by (simp add: t showNat_1000)
  have y: "getDeepRecord regAll exProjectAdded
              (Addr (getAddress exProjectAdded 1000 (Some (type exNewSceneAdded)) None None None))
            = Inr (Some exNewSceneAdded)"
    using r by (rule conjunct2)
  from y[unfolded x] x exProject_addRecord b t show ?thesis by simp
qed

subsection \<open>C1: ids stay unique\<close>

lemma exElement_kept: "changeDeepRecordId_to regAll 70 1000 exElement = Inr exElement"
  by (subst changeDeepRecordId_to.simps) (simp add: exElement_def map_evals node_evals)

lemma exElement_deep: "getDeepRecordMap regAll exElement = Inr []"
  by (subst getDeepRecordMap.simps) (simp add: exElement_def map_evals node_evals)

lemma exScene_cycled:
  "cycleAllSubRecordIds regAll 0 (with_order exScene (Some 2)) = Inr (with_order exScene (Some 2), 1)"
proof -
  have m: "getRecordMap (with_order exScene (Some 2)) = [(70, ''element'', exElement)]"
    by (simp add: exScene_def map_evals node_evals)
  have d: "getDeepRecordMap regAll (with_order exScene (Some 2)) = Inr [(70, exElement)]"
    by (subst getDeepRecordMap.simps)
      (simp add: m exElement_deep, simp add: exElement_def js_assign_def js_put_def is_array_index_def)
  have "getRecordMap (with_props (with_order exScene (Some 2))
                        (rewriteProps 70 1000 (props (with_order exScene (Some 2)))))
      = [(70, ''element'', exElement)]"
    by (simp add: exScene_def map_evals node_evals)
  then have c: "changeDeepRecordId_to regAll 70 1000 (with_order exScene (Some 2))
              = Inr (with_order exScene (Some 2))"
    by (subst changeDeepRecordId_to.simps)
      (simp add: exElement_kept, simp add: exScene_def exElement_def node_evals rewriteProps_def)
  show ?thesis
    by (simp add: cycleAllSubRecordIds_def d changeDeepRecordId_def c)
qed

text \<open>
  C1 says that after any \<^verbatim>\<open>addRecord\<close>, \<^verbatim>\<open>duplicateRecord\<close> or \<^verbatim>\<open>cycleAllSubRecordIds\<close> call no two
  record nodes of the tree are stored under the same id. \<^verbatim>\<open>duplicateRecord\<close> hands a deep clone
  of the record to \<^verbatim>\<open>addRecord\<close>, which generates every id itself: it cycles the ids of the
  clone's sub-records with \<^verbatim>\<open>cycleAllSubRecordIds\<close> and stores the clone under a new id.
  \<^verbatim>\<open>changeDeepRecordId\<close> moves an entry only in the copy that \<^verbatim>\<open>getRecordMap()\<close> builds, so the
  cycling leaves every sub-record of the clone under the id it had. In \<open>exProject\<close>, whose ids
  are 10 (a scene) and 70 (an element of that scene), \<^verbatim>\<open>duplicateRecord(scene, 10)\<close> stores
  the clone under 1001 with its element still under 70: the tree holds the id 70 twice.
\<close>

theorem duplicateRecord_repeats_sub_record_id:
  "distinct (all_ids exProject)
   \<and> duplicateRecord regAll 0 exProject ''scene'' 10
       = Inr (exProjectDuplicated, 2, Some (1001, exSceneDuplicate))
   \<and> all_ids exProjectDuplicated = [10, 70, 1001, 70]"
proof -
  have g: "getRecordOfType exProject ''scene'' 10 = Some exScene"
    by (simp add: exProject_def getRecordOfType_def)
  have t: "type exScene = ''scene''" by (simp add: exScene_def)
  have ids: "getSortedRecordIdsOfType exProject ''scene'' = (exProject, [10])"
    by (simp add: getSortedRecordIdsOfType_def getSortedRecordEntriesOfType_def
      ensureOrderKeyPresentOfType_def exProject_def exScene_def node_evals)
  have i: "initializeRecordMap regAll exProject ''scene'' = (True, exProject)"
    by (simp add: initializeRecordMap_def recordsMember_def inheritedMember_def ownRecordMap_def exProject_def)
  have s: "getSortedRecordsOfType exProject ''scene'' = (exProject, [exScene])"
    by (simp add: getSortedRecordsOfType_def getSortedRecordEntriesOfType_def
      ensureOrderKeyPresentOfType_def exProject_def exScene_def node_evals)
  have o: "getNewOrders [exScene] (Suc 0) (Some 1) = Inr [2]"
    by (simp add: getNewOrders_def exScene_def orderKey_def)
  have r: "changeRecordName regAll
             (put_recordMapOfType exProject ''scene''
                (js_put 1001 (with_order exScene (Some 2)) (getRecordMapOfType exProject ''scene'')))
             ''scene'' 1001 (name exScene)
           = Inr (exProjectDuplicated, Some exSceneDuplicate)"
    by (simp add: changeRecordName_def exProject_def exProjectDuplicated_def exSceneDuplicate_def
        exScene_def js_put_def is_array_index_def node_evals List.map_filter_def Let_def showNat.simps digitChar_def)
  have m: "\<not> inheritedMember exProject ''scene''"
    by (simp add: inheritedMember_def ownRecordMap_def exProject_def)
  have "addRecord regAll 0 exProject exScene (Some 1) None False
      = Inr (exProjectDuplicated, 2, Some (1001, exSceneDuplicate))"
    unfolding addRecord_def t by (simp add: i s o exScene_cycled m r Let_def)
  then have d: "duplicateRecord regAll 0 exProject ''scene'' 10
       = Inr (exProjectDuplicated, 2, Some (1001, exSceneDuplicate))"
    by (simp add: duplicateRecord_def g[simplified] t ids[simplified] Let_def)
  have "all_ids exProjectDuplicated = [10, 70, 1001, 70]"
    by (simp add: exProjectDuplicated_def exSceneDuplicate_def exScene_def exElement_def)
  with d exProject_wf(2) show ?thesis by simp
qed

subsection \<open>C4: copying a record to an address\<close>

text \<open>
  C4 says that \<^verbatim>\<open>copyDeepRecordsToAddress\<close> inserts a deep clone and leaves the original
  untouched. The method resolves each source with \<^verbatim>\<open>getRecordAndParent\<close> and hands
  \<^verbatim>\<open>rAndP.r\<close>, the stored node itself, to \<^verbatim>\<open>addRecord\<close> on the destination; it makes no clone,
  where \<^verbatim>\<open>duplicateRecord\<close> calls \<^verbatim>\<open>deepClone\<close> first. \<^verbatim>\<open>addRecord\<close> writes the new order to the
  object it is given and stores that same object under the new id.

  In \<open>exCopyProject\<close>, scene 10 holds the elements 70 (order 1) and 71 (order 2). For
  \<^verbatim>\<open>copyDeepRecordsToAddress(["scene:10|element:70"], "scene:10")\<close> the source resolves to
  the node stored under 70 and the destination to scene 10, and \<^verbatim>\<open>addRecord\<close> on scene 10
  with that node returns it with order 3 under the id 1000: the original element 70 has
  lost its order 1, and the ids 70 and 1000 hold one and the same object.
\<close>

theorem copy_hands_original_to_addRecord:
  "getRecordAndParentWithAddress regAll exCopyProject ''scene:10|element:70''
     = Inr (Some (RAndP 70 (exElementAt 1) exCopyScene))
   \<and> getDeepRecord regAll exCopyProject (Addr ''scene:10'') = Inr (Some exCopyScene)
   \<and> (case addRecord regAll 0 exCopyScene (exElementAt 1) None None False of
        Inl err \<Rightarrow> False
      | Inr (n', g', res) \<Rightarrow> res = Some (1000, exElementAt 3))"
proof -
  have sp: "js_split (CHR ''|'') ''scene:10|element:70'' = [''scene:10'', ''element:70'']"
    "js_split (CHR '':'') ''scene:10'' = [''scene'', ''10'']"
    "js_split (CHR '':'') ''element:70'' = [''element'', ''70'']"
    "js_split (CHR ''|'') ''scene:10'' = [''scene:10'']"
    by simp_all
  have st: "stripProperty ''scene:10|element:70'' = ''scene:10|element:70''"
    "stripProperty ''scene:10'' = ''scene:10''"
    by (simp_all add: stripProperty_def)
  have num: "js_Number (Some ''10'') = Some 10" "js_Number (Some ''70'') = Some 70"
    by (simp_all add: js_Number_def digitVal_def)
  have g: "getRecordOfType exCopyProject ''scene'' 10 = Some exCopyScene"
    "getRecordOfType exCopyScene ''element'' 70 = Some (exElementAt 1)"
    by (simp_all add: exCopyProject_def exCopyScene_def getRecordOfType_def)
  have ty: "type exCopyProject = ''project''" "type exCopyScene = ''scene''"
    "records exCopyProject \<noteq> None"
    by (simp_all add: exCopyProject_def exCopyScene_def)
  have a: "getRecordAndParentWithAddress regAll exCopyProject ''scene:10|element:70''
     = Inr (Some (RAndP 70 (exElementAt 1) exCopyScene))"
    by (simp add: getRecordAndParentWithAddress_def st sp num g ty Let_def)
  have b: "getDeepRecord regAll exCopyProject (Addr ''scene:10'') = Inr (Some exCopyScene)"
    by (simp add: getDeepRecord_def getRecordAndParentWithAddress_def st sp num g ty Let_def)
  have i: "initializeRecordMap regAll exCopyScene ''element'' = (True, exCopyScene)"
    by (simp add: initializeRecordMap_def recordsMember_def inheritedMember_def ownRecordMap_def exCopyScene_def)
  have s: "getSortedRecordsOfType exCopyScene ''element'' = (exCopyScene, [exElementAt 1, exElementAt 2])"
    by (simp add: getSortedRecordsOfType_def getSortedRecordEntriesOfType_def
      ensureOrderKeyPresentOfType_def exCopyScene_def exElementAt_def node_evals)
  have o: "getNewOrders [exElementAt 1, exElementAt 2] (Suc 0) None = Inr [3]"
    by (simp add: getNewOrders_def exElementAt_def orderKey_def)
  have w: "with_order (exElementAt 1) (Some 3) = exElementAt 3"
    by (simp add: exElementAt_def with_order_def)
  have c: "cycleAllSubRecordIds regAll 0 (exElementAt 3) = Inr (exElementAt 3, 0)"
  proof -
    have "getDeepRecordMap regAll (exElementAt 3) = Inr []"
      by (subst getDeepRecordMap.simps) (simp add: exElementAt_def map_evals node_evals)
    then show ?thesis by (simp add: cycleAllSubRecordIds_def)
  qed
  have t: "type (exElementAt 1) = ''element''" by (simp add: exElementAt_def)
  have r: "changeRecordName regAll
             (put_recordMapOfType exCopyScene ''element''
                (js_put 1000 (exElementAt 3) (getRecordMapOfType exCopyScene ''element'')))
             ''element'' 1000 (name (exElementAt 3))
           = Inr (put_recordMapOfType exCopyScene ''element''
                (js_put 1000 (exElementAt 3) (getRecordMapOfType exCopyScene ''element'')), None)"
    by (simp add: changeRecordName_def exCopyScene_def exElementAt_def
        js_put_def is_array_index_def node_evals)
  have m: "\<not> inheritedMember exCopyScene ''element''"
    by (simp add: inheritedMember_def ownRecordMap_def exCopyScene_def)
  have "addRecord regAll 0 exCopyScene (exElementAt 1) None None False
      = Inr (put_recordMapOfType exCopyScene ''element''
                (js_put 1000 (exElementAt 3) (getRecordMapOfType exCopyScene ''element'')),
             1, Some (1000, exElementAt 3))"
    unfolding addRecord_def t by (simp add: i s o w c m r Let_def)
  with a b show ?thesis by simp
qed

end
